theory Spec2Isabelle
  imports Main "HOL-Library.Word"
begin

section \<open>Data model of \<^verbatim>\<open>xen/arch/x86/crash.c\<close>\<close>

text \<open>
  The file has three statics: the cpumask \<^verbatim>\<open>waiting_to_crash\<close>, the processor number
  \<^verbatim>\<open>crashing_cpu\<close> and the per-processor boolean \<^verbatim>\<open>crash_save_done\<close>.  A cpumask is a
  set of processor numbers; \<^verbatim>\<open>cpumask_andnot\<close> is set difference, \<^verbatim>\<open>cpumask_clear_cpu\<close>
  removes one element and \<^verbatim>\<open>cpumask_empty\<close> compares with the empty set.

  Everything the file calls and does not define (console, IOMMU, APIC, PCI, kexec) is an
  event appended to a trace, tagged with the processor that makes the call.
\<close>

text \<open>
  Modelled from the spec: the enumeration \<^verbatim>\<open>enum apic_mode\<close> of \<^verbatim>\<open>asm/apic.h\<close> is missing.
  The switch of \<^verbatim>\<open>do_nmi_crash\<close> names two modes and has a default branch; the spec speaks
  of two mutually exclusive modes or an unrecognized third state.
\<close>
datatype apic_mode = APIC_MODE_X2APIC | APIC_MODE_XAPIC | APIC_MODE_UNRECOGNIZED

text \<open>
  Modelled from the spec: the interrupt stack table index of an IDT entry (\<^verbatim>\<open>asm/idt.h\<close> is
  missing): either no dedicated stack, or the dedicated machine-check stack.
\<close>
datatype ist = IST_NONE | IST_MCE

text \<open>The routine bound to the NMI vector of a processor's IDT.\<close>
datatype gate_handler = Nmi_entry | Trap_nop

text \<open>The global NMI callback: \<^verbatim>\<open>do_nmi_crash\<close>, or whatever was registered before.\<close>
datatype nmi_callback_t = Other_nmi_callback | Do_nmi_crash

datatype printk_msg =
    Shot_down_all_CPUs
  | Failed_to_shoot_down_CPUs "nat set"

text \<open>
  One event for each call.  The constants of the APIC headers are missing, so the three
  register writes of the self-NMI are named for what they write:
  \<open>Apic_wrmsr_ICR_nmi id\<close> is
  \<^verbatim>\<open>apic_wrmsr(APIC_ICR, APIC_DM_NMI | APIC_DEST_PHYSICAL | ((u64)id << 32))\<close>,
  \<open>Apic_mem_write_ICR2 v\<close> is \<^verbatim>\<open>apic_mem_write(APIC_ICR2, v)\<close> and \<open>Apic_mem_write_ICR_nmi\<close> is
  \<^verbatim>\<open>apic_mem_write(APIC_ICR, APIC_DM_NMI | APIC_DEST_PHYSICAL)\<close>.  Reads of APIC registers and
  \<^verbatim>\<open>cpu_relax\<close> leave no event; what the reads return is part of \<open>nmi_delivery\<close> below.
  \<open>Set_gate_lower_NMI h\<close> is \<^verbatim>\<open>_set_gate_lower(&idt[X86_EXC_NMI], SYS_DESC_irq_gate, 0, h)\<close> and
  \<open>Set_ist_MC v\<close> is \<^verbatim>\<open>set_ist(&idt[X86_EXC_MC], v)\<close>, each on the IDT of the calling processor.
\<close>
datatype event =
    Stac
  | Set_ist_MC ist
  | Kexec_crash_save_cpu
  | Stop_this_cpu
  | Apic_wrmsr_ICR_nmi "32 word"
  | Apic_mem_write_ICR2 "32 word"
  | Apic_mem_write_ICR_nmi
  | Halt
  | Disable_lapic_nmi_watchdog
  | Local_irq_disable
  | Set_gate_lower_NMI gate_handler
  | Set_nmi_callback nmi_callback_t
  | Smp_send_nmi_allbutself
  | Mdelay nat
  | Console_force_unlock
  | Printk printk_msg
  | Iommu_crash_shutdown
  | Pcidevs_trylock bool
  | Pci_disable_msi_all
  | Pcidevs_unlock
  | Disable_IO_APIC
  | Hpet_disable
  | Iommu_quiesce
  | Kexec_crash_save_info

record crash_state =
  waiting_to_crash :: "nat set"
  crashing_cpu :: nat
  crash_save_done :: "nat \<Rightarrow> bool"
  cpu_online_map :: "nat set"
  local_irq_count :: "nat \<Rightarrow> nat"
  idt_nmi :: "nat \<Rightarrow> gate_handler"
  idt_mc_ist :: "nat \<Rightarrow> ist"
  nmi_callback :: nmi_callback_t
  x2apic_enabled :: bool
  xen_phys_start :: "64 word"
  dom0_frame_list_list :: "64 word"
  info_xen_phys_start :: "64 word option"
  info_dom0_pfn_to_mfn_frame_list_list :: "64 word option"
  trace :: "(nat \<times> event) list"

text \<open>
  What the hardware shows to one invocation of the NMI handler: the processor that takes the
  NMI, its local APIC mode, the APIC id read through either interface, and whether the
  k-th read of the ICR has the busy bit set.
\<close>
record nmi_delivery =
  nmi_cpu :: nat
  local_apic_mode :: apic_mode
  x2apic_id :: "32 word"
  xapic_id :: "32 word"
  icr_busy :: "nat \<Rightarrow> bool"

section \<open>The calls into the rest of the hypervisor\<close>

definition emit :: "nat \<Rightarrow> event \<Rightarrow> crash_state \<Rightarrow> crash_state" where
  "emit cpu e s = s\<lparr>trace := trace s @ [(cpu, e)]\<rparr>"

definition set_ist_MC :: "nat \<Rightarrow> ist \<Rightarrow> crash_state \<Rightarrow> crash_state" where
  "set_ist_MC cpu v s = emit cpu (Set_ist_MC v) (s\<lparr>idt_mc_ist := (idt_mc_ist s)(cpu := v)\<rparr>)"

text \<open>
  Modelled from the spec: \<^verbatim>\<open>__stop_this_cpu\<close> is defined in \<^verbatim>\<open>smp.c\<close>, which is missing.
  The spec describes it as the local shutdown that disables the local interrupt controller
  and marks the processor as not participating any more.
\<close>
definition stop_this_cpu :: "nat \<Rightarrow> crash_state \<Rightarrow> crash_state" where
  "stop_this_cpu cpu s = emit cpu Stop_this_cpu (s\<lparr>cpu_online_map := cpu_online_map s - {cpu}\<rparr>)"

definition set_gate_lower_NMI :: "nat \<Rightarrow> gate_handler \<Rightarrow> crash_state \<Rightarrow> crash_state" where
  "set_gate_lower_NMI cpu h s =
     emit cpu (Set_gate_lower_NMI h) (s\<lparr>idt_nmi := (idt_nmi s)(cpu := h)\<rparr>)"

definition set_nmi_callback :: "nat \<Rightarrow> nmi_callback_t \<Rightarrow> crash_state \<Rightarrow> crash_state" where
  "set_nmi_callback cpu cb s = emit cpu (Set_nmi_callback cb) (s\<lparr>nmi_callback := cb\<rparr>)"

section \<open>The NMI handler \<^verbatim>\<open>do_nmi_crash\<close>\<close>

text \<open>
  The busy-wait of the xAPIC branch,
  \<^verbatim>\<open>while ( apic_mem_read(APIC_ICR) & APIC_ICR_BUSY ) cpu_relax();\<close>
  It returns the number of reads that saw the busy bit, and does not return when every
  read sees it.
\<close>
partial_function (option) icr_busy_wait :: "(nat \<Rightarrow> bool) \<Rightarrow> nat \<Rightarrow> nat option" where
  "icr_busy_wait busy n = (if busy n then icr_busy_wait busy (Suc n) else Some n)"

text \<open>The switch on \<^verbatim>\<open>current_local_apic_mode()\<close>, lines 90 to 113.\<close>
definition self_nmi :: "nmi_delivery \<Rightarrow> crash_state \<Rightarrow> crash_state option" where
  "self_nmi d s =
     (case local_apic_mode d of
        APIC_MODE_X2APIC \<Rightarrow>
          Some (emit (nmi_cpu d) (Apic_wrmsr_ICR_nmi (x2apic_id d)) s)
      | APIC_MODE_XAPIC \<Rightarrow>
          (case icr_busy_wait (icr_busy d) 0 of
             None \<Rightarrow> None
           | Some k \<Rightarrow>
               Some (emit (nmi_cpu d) Apic_mem_write_ICR_nmi
                      (emit (nmi_cpu d) (Apic_mem_write_ICR2 (push_bit 24 (xapic_id d))) s)))
      | APIC_MODE_UNRECOGNIZED \<Rightarrow> Some s)"

text \<open>The body of \<^verbatim>\<open>if ( !this_cpu(crash_save_done) )\<close>, lines 50 to 73.\<close>
definition crash_save_once :: "nat \<Rightarrow> crash_state \<Rightarrow> crash_state" where
  "crash_save_once cpu s =
     (if \<not> crash_save_done s cpu then
        (let s = set_ist_MC cpu IST_NONE s;
             s = emit cpu Kexec_crash_save_cpu s;
             s = stop_this_cpu cpu s;
             s = s\<lparr>crash_save_done := (crash_save_done s)(cpu := True)\<rparr>;
             s = s\<lparr>waiting_to_crash := waiting_to_crash s - {cpu}\<rparr>
         in s)
      else s)"

text \<open>
  The handler never returns.  It ends in one of three ways: in the loop
  \<^verbatim>\<open>for ( ; ; ) halt();\<close>, in the busy-wait on the ICR when the busy bit never clears, or
  at the failed assertion \<^verbatim>\<open>ASSERT(cpu != crashing_cpu)\<close>, which is checked as in a debug
  build.  Each outcome carries the state the handler leaves behind.
\<close>
datatype nmi_outcome =
    Halt_loop crash_state
  | Icr_busy_spin crash_state
  | Assertion_failed crash_state

definition do_nmi_crash :: "nmi_delivery \<Rightarrow> crash_state \<Rightarrow> nmi_outcome" where
  "do_nmi_crash d s0 =
     (let cpu = nmi_cpu d;
          s = emit cpu Stac s0
      in if cpu = crashing_cpu s then Assertion_failed s
         else
           (let s = crash_save_once cpu s
            in case self_nmi d s of
                 None \<Rightarrow> Icr_busy_spin s
               | Some s' \<Rightarrow> Halt_loop (emit cpu Halt s')))"

fun state_of :: "nmi_outcome \<Rightarrow> crash_state" where
  "state_of (Halt_loop s) = s"
| "state_of (Icr_busy_spin s) = s"
| "state_of (Assertion_failed s) = s"

fun reaches_halt_loop :: "nmi_outcome \<Rightarrow> bool" where
  "reaches_halt_loop (Halt_loop s) = True"
| "reaches_halt_loop (Icr_busy_spin s) = False"
| "reaches_halt_loop (Assertion_failed s) = False"

text \<open>The calls one processor has made, in order.\<close>
definition events_of :: "nat \<Rightarrow> (nat \<times> event) list \<Rightarrow> event list" where
  "events_of cpu tr = map snd (filter (\<lambda>p. fst p = cpu) tr)"

section \<open>Interleaving with the other processors\<close>

text \<open>
  The coordinating processor runs \<^verbatim>\<open>machine_crash_shutdown\<close> statement by statement.  After
  each statement the other processors may take NMIs.  A run keeps the current state, the
  earlier states (most recent first) and the number of sequence points passed so far; the
  environment says which NMIs are taken at which sequence point, on which processors and
  in which order.

  One run of the handler is one step.  Of what the handler writes, the coordinating
  processor reads only \<^verbatim>\<open>waiting_to_crash\<close>, and the handler changes that with a single
  \<^verbatim>\<open>cpumask_clear_cpu\<close>; everything else it writes belongs to its own processor.
\<close>
record run =
  cur :: crash_state
  past :: "crash_state list"
  tick :: nat

record env =
  nmi_arrivals :: "nat \<Rightarrow> nmi_delivery list"
  pcidevs_lock_free :: bool
  coordinator_apic_mode :: apic_mode

definition states :: "run \<Rightarrow> crash_state list" where
  "states r = cur r # past r"

definition push :: "crash_state \<Rightarrow> run \<Rightarrow> run" where
  "push s r = r\<lparr>cur := s, past := cur r # past r\<rparr>"

text \<open>
  Modelled from the spec: the dispatch of an NMI (\<^verbatim>\<open>traps.c\<close>, missing).  The processor
  enters through the NMI gate of its own IDT; the regular entry calls the registered
  callback, and \<^verbatim>\<open>trap_nop\<close> returns at once.  Callbacks other than \<^verbatim>\<open>do_nmi_crash\<close> do not
  touch the state of this file.
\<close>
definition deliver_nmi :: "nmi_delivery \<Rightarrow> crash_state \<Rightarrow> crash_state" where
  "deliver_nmi d s =
     (if idt_nmi s (nmi_cpu d) = Nmi_entry \<and> nmi_callback s = Do_nmi_crash
      then state_of (do_nmi_crash d s) else s)"

definition interleave :: "env \<Rightarrow> run \<Rightarrow> run" where
  "interleave env r =
     fold (\<lambda>d r. push (deliver_nmi d (cur r)) r) (nmi_arrivals env (tick r))
       (r\<lparr>tick := Suc (tick r)\<rparr>)"

text \<open>One statement of the coordinating processor, then a sequence point.\<close>
definition exec :: "env \<Rightarrow> (crash_state \<Rightarrow> crash_state) \<Rightarrow> run \<Rightarrow> run" where
  "exec env f r = interleave env (push (f (cur r)) r)"

section \<open>\<^verbatim>\<open>nmi_shootdown_cpus\<close> and \<^verbatim>\<open>machine_crash_shutdown\<close>\<close>

text \<open>Lines 125 to 141: everything up to and including the broadcast.\<close>
definition shootdown_prepare :: "env \<Rightarrow> nat \<Rightarrow> run \<Rightarrow> run" where
  "shootdown_prepare env cpu r0 =
     (let r = exec env (emit cpu Disable_lapic_nmi_watchdog) r0;
          r = exec env (emit cpu Local_irq_disable) r;
          r = exec env (\<lambda>s. s\<lparr>crashing_cpu := cpu\<rparr>) r;
          r = exec env (\<lambda>s. s\<lparr>local_irq_count := (local_irq_count s)(crashing_cpu s := 0)\<rparr>) r;
          r = exec env (\<lambda>s. s\<lparr>waiting_to_crash := cpu_online_map s - {cpu}\<rparr>) r;
          r = exec env (set_gate_lower_NMI cpu Trap_nop) r;
          r = exec env (set_ist_MC cpu IST_NONE) r;
          r = exec env (set_nmi_callback cpu Do_nmi_crash) r;
          r = exec env (emit cpu Smp_send_nmi_allbutself) r
      in r)"

text \<open>
  Lines 143 to 148.  \<^verbatim>\<open>msecs\<close> is an \<^verbatim>\<open>unsigned long\<close> that starts at 1000 and is only
  decremented while it is not zero, so it never wraps and a natural number models it.  The
  loop returns the value \<^verbatim>\<open>msecs\<close> has at its exit together with the run.
\<close>
fun poll_waiting_to_crash :: "env \<Rightarrow> nat \<Rightarrow> nat \<Rightarrow> run \<Rightarrow> nat \<times> run" where
  "poll_waiting_to_crash env cpu msecs r =
     (if waiting_to_crash (cur r) \<noteq> {} \<and> msecs \<noteq> 0
      then poll_waiting_to_crash env cpu (msecs - 1) (exec env (emit cpu (Mdelay 1)) r)
      else (msecs, r))"

declare poll_waiting_to_crash.simps [simp del]

text \<open>
  Lines 154 to 168.  The mask is read twice, once by the test and once by the \<^verbatim>\<open>printk\<close>
  of the else branch, with a sequence point in between.
\<close>
definition shootdown_report :: "env \<Rightarrow> nat \<Rightarrow> run \<Rightarrow> run" where
  "shootdown_report env cpu r0 =
     (let r = exec env (emit cpu Console_force_unlock) r0;
          all_down = (waiting_to_crash (cur r) = {});
          r = interleave env r;
          r = (if all_down then exec env (emit cpu (Printk Shot_down_all_CPUs)) r
               else exec env (\<lambda>s. emit cpu (Printk (Failed_to_shoot_down_CPUs (waiting_to_crash s))) s) r);
          r = exec env (emit cpu Iommu_crash_shutdown) r
      in r)"

text \<open>Lines 170 to 194.\<close>
definition shootdown_local :: "env \<Rightarrow> nat \<Rightarrow> run \<Rightarrow> run" where
  "shootdown_local env cpu r0 =
     (if cpu \<in> cpu_online_map (cur r0) then
        (let r = exec env (stop_this_cpu cpu) r0;
             r = exec env (\<lambda>s. s\<lparr>x2apic_enabled := (coordinator_apic_mode env = APIC_MODE_X2APIC)\<rparr>) r;
             locked = pcidevs_lock_free env;
             r = exec env (emit cpu (Pcidevs_trylock locked)) r;
             r = (if locked then
                    (let r = exec env (emit cpu Pci_disable_msi_all) r;
                         r = exec env (emit cpu Pcidevs_unlock) r
                     in r)
                  else r);
             r = exec env (emit cpu Disable_IO_APIC) r;
             r = exec env (emit cpu Hpet_disable) r;
             r = exec env (emit cpu Iommu_quiesce) r
         in r)
      else r0)"

definition nmi_shootdown_cpus :: "env \<Rightarrow> nat \<Rightarrow> run \<Rightarrow> run" where
  "nmi_shootdown_cpus env cpu r0 =
     (let r = shootdown_prepare env cpu r0;
          (msecs, r) = poll_waiting_to_crash env cpu 1000 r;
          r = shootdown_report env cpu r;
          r = shootdown_local env cpu r
      in r)"

text \<open>
  Lines 197 to 207.  \<^verbatim>\<open>arch_get_pfn_to_mfn_frame_list_list(hardware_domain)\<close> is a macro of a
  missing header; the value it reads is the field \<open>dom0_frame_list_list\<close> of the state.  A
  field of the record returned by \<^verbatim>\<open>kexec_crash_save_info\<close> is \<open>None\<close> until it is assigned.
\<close>
definition machine_crash_shutdown :: "env \<Rightarrow> nat \<Rightarrow> run \<Rightarrow> run" where
  "machine_crash_shutdown env cpu r0 =
     (let r = nmi_shootdown_cpus env cpu r0;
          r = exec env (emit cpu Kexec_crash_save_info) r;
          r = exec env (\<lambda>s. s\<lparr>info_xen_phys_start := Some (xen_phys_start s)\<rparr>) r;
          r = exec env (\<lambda>s. s\<lparr>info_dom0_pfn_to_mfn_frame_list_list := Some (dom0_frame_list_list s)\<rparr>) r
      in r)"

definition mdelays :: "(nat \<times> event) list \<Rightarrow> nat" where
  "mdelays tr = length (filter (\<lambda>p. snd p = Mdelay 1) tr)"

section \<open>Example inputs\<close>

text \<open>Four processors online, the statics as the loader zeroes them, nothing written yet.\<close>
definition boot_state :: crash_state where
  "boot_state =
     \<lparr> waiting_to_crash = {}, crashing_cpu = 0, crash_save_done = (\<lambda>c. False),
       cpu_online_map = {0, 1, 2, 3}, local_irq_count = (\<lambda>c. 1),
       idt_nmi = (\<lambda>c. Nmi_entry), idt_mc_ist = (\<lambda>c. IST_MCE),
       nmi_callback = Other_nmi_callback, x2apic_enabled = True,
       xen_phys_start = 0x7F000000, dom0_frame_list_list = 0x12345,
       info_xen_phys_start = None, info_dom0_pfn_to_mfn_frame_list_list = None,
       trace = [] \<rparr>"

definition boot_run :: run where
  "boot_run = \<lparr> cur = boot_state, past = [], tick = 0 \<rparr>"

text \<open>
  The same machine with Xen running where it was loaded and a hardware domain that never
  registered a frame list: both sources of the crash record are zero.
\<close>
definition zero_sources_run :: run where
  "zero_sources_run =
     \<lparr> cur = boot_state\<lparr>xen_phys_start := 0, dom0_frame_list_list := 0\<rparr>, past = [], tick = 0 \<rparr>"

definition nmi_on :: "apic_mode \<Rightarrow> nat \<Rightarrow> nmi_delivery" where
  "nmi_on m c =
     \<lparr> nmi_cpu = c, local_apic_mode = m, x2apic_id = of_nat c, xapic_id = of_nat c,
       icr_busy = (\<lambda>k. k < 2) \<rparr>"

text \<open>An xAPIC whose ICR never stops reporting a command in flight.\<close>
definition nmi_icr_stuck :: "nat \<Rightarrow> nmi_delivery" where
  "nmi_icr_stuck c =
     \<lparr> nmi_cpu = c, local_apic_mode = APIC_MODE_XAPIC, x2apic_id = of_nat c, xapic_id = of_nat c,
       icr_busy = (\<lambda>k. True) \<rparr>"

text \<open>Processor 1 has been through the handler once.\<close>
definition cpu1_done_state :: crash_state where
  "cpu1_done_state =
     boot_state\<lparr>waiting_to_crash := {2, 3}, crash_save_done := (\<lambda>c. c = 1),
       cpu_online_map := {0, 2, 3}, nmi_callback := Do_nmi_crash\<rparr>"

text \<open>Processors 1, 2 and 3 take the broadcast NMI right after it is sent.\<close>
definition env_all_respond :: env where
  "env_all_respond =
     \<lparr> nmi_arrivals = (\<lambda>t. if t = 8 then map (nmi_on APIC_MODE_X2APIC) [1, 2, 3] else []),
       pcidevs_lock_free = True, coordinator_apic_mode = APIC_MODE_X2APIC \<rparr>"

text \<open>Processor 2 hangs; the device-list lock is held by somebody else.\<close>
definition env_cpu2_hangs :: env where
  "env_cpu2_hangs =
     \<lparr> nmi_arrivals = (\<lambda>t. if t = 8 then map (nmi_on APIC_MODE_XAPIC) [1, 3] else []),
       pcidevs_lock_free = False, coordinator_apic_mode = APIC_MODE_XAPIC \<rparr>"

section \<open>The handler\<close>

lemma icr_busy_wait_clear: "\<not> busy (n + k) \<Longrightarrow> \<exists>m. icr_busy_wait busy n = Some m"
proof (induction k arbitrary: n)
  case 0
  then show ?case by (simp add: icr_busy_wait.simps)
next
  case (Suc k)
  show ?case
  proof (cases "busy n")
    case True
    from Suc.prems have "\<not> busy (Suc n + k)" by simp
    from Suc.IH [OF this] True show ?thesis by (subst icr_busy_wait.simps) simp
  next
    case False
    then show ?thesis by (simp add: icr_busy_wait.simps)
  qed
qed

lemmas prim_defs = emit_def set_ist_MC_def stop_this_cpu_def set_gate_lower_NMI_def set_nmi_callback_def

lemma emit_fields [simp]:
  "waiting_to_crash (emit c e s) = waiting_to_crash s"
  "crashing_cpu (emit c e s) = crashing_cpu s"
  "crash_save_done (emit c e s) = crash_save_done s"
  "cpu_online_map (emit c e s) = cpu_online_map s"
  "local_irq_count (emit c e s) = local_irq_count s"
  "idt_nmi (emit c e s) = idt_nmi s"
  "idt_mc_ist (emit c e s) = idt_mc_ist s"
  "nmi_callback (emit c e s) = nmi_callback s"
  "x2apic_enabled (emit c e s) = x2apic_enabled s"
  "xen_phys_start (emit c e s) = xen_phys_start s"
  "dom0_frame_list_list (emit c e s) = dom0_frame_list_list s"
  "info_xen_phys_start (emit c e s) = info_xen_phys_start s"
  "info_dom0_pfn_to_mfn_frame_list_list (emit c e s) = info_dom0_pfn_to_mfn_frame_list_list s"
  "trace (emit c e s) = trace s @ [(c, e)]"
  by (simp_all add: emit_def)

lemma icr_busy_wait_stuck:
  assumes "icr_busy_wait busy n = Some m"
  shows "\<exists>k\<ge>n. \<not> busy k"
  using assms
proof (induction rule: icr_busy_wait.raw_induct[rotated 1, consumes 1])
  case (1 f busy n m)
  show ?case
  proof (cases "busy n")
    case True
    with 1(2) have "f busy (Suc n) = Some m" by simp
    from 1(1)[OF this] obtain k where "k \<ge> Suc n" "\<not> busy k" by blast
    then show ?thesis by (intro exI[of _ k]) simp
  next
    case False
    then show ?thesis by blast
  qed
qed

text \<open>
  Claim C8.  When \<^verbatim>\<open>current_local_apic_mode()\<close> is neither x2APIC nor xAPIC, the switch of
  \<^verbatim>\<open>do_nmi_crash\<close> does nothing at all: the state, trace included, is the one it started
  from.  On a processor other than the crashing one the handler then reaches the halt loop,
  and the calls it has made are \<^verbatim>\<open>stac\<close>, the three calls of the first entry when this is the
  first entry, and \<^verbatim>\<open>halt\<close>: no write to a register of the local APIC.
\<close>
theorem unrecognized_mode_skips_self_nmi:
  assumes "local_apic_mode d = APIC_MODE_UNRECOGNIZED" and "nmi_cpu d \<noteq> crashing_cpu s"
  shows "self_nmi d s' = Some s'
    \<and> reaches_halt_loop (do_nmi_crash d s)
    \<and> trace (state_of (do_nmi_crash d s)) =
        trace s @ map (Pair (nmi_cpu d))
          (Stac # (if crash_save_done s (nmi_cpu d) then []
                   else [Set_ist_MC IST_NONE, Kexec_crash_save_cpu, Stop_this_cpu]) @ [Halt])"
  using assms
  by (simp add: self_nmi_def do_nmi_crash_def crash_save_once_def Let_def prim_defs)

theorem unrecognized_mode_skips_self_nmi_witness:
  "local_apic_mode (nmi_on APIC_MODE_UNRECOGNIZED 1) = APIC_MODE_UNRECOGNIZED
   \<and> nmi_cpu (nmi_on APIC_MODE_UNRECOGNIZED 1) \<noteq> crashing_cpu boot_state
   \<and> self_nmi (nmi_on APIC_MODE_UNRECOGNIZED 1) boot_state = Some boot_state
   \<and> reaches_halt_loop (do_nmi_crash (nmi_on APIC_MODE_UNRECOGNIZED 1) boot_state)
   \<and> trace (state_of (do_nmi_crash (nmi_on APIC_MODE_UNRECOGNIZED 1) boot_state)) =
       [(1, Stac), (1, Set_ist_MC IST_NONE), (1, Kexec_crash_save_cpu), (1, Stop_this_cpu), (1, Halt)]"
proof -
  have h1: "local_apic_mode (nmi_on APIC_MODE_UNRECOGNIZED 1) = APIC_MODE_UNRECOGNIZED"
    by (simp add: nmi_on_def)
  have h2: "nmi_cpu (nmi_on APIC_MODE_UNRECOGNIZED 1) \<noteq> crashing_cpu boot_state"
    by (simp add: nmi_on_def boot_state_def)
  show ?thesis
    using unrecognized_mode_skips_self_nmi [OF h1 h2, of boot_state] h1 h2
    by (simp add: nmi_on_def boot_state_def)
qed

lemma icr_busy_wait_never: "(icr_busy_wait busy 0 = None) = (\<forall>k. busy k)"
proof
  assume n: "icr_busy_wait busy 0 = None"
  show "\<forall>k. busy k"
  proof (rule ccontr)
    assume "\<not> (\<forall>k. busy k)"
    then obtain k where "\<not> busy (0 + k)" by auto
    from icr_busy_wait_clear [of busy 0 k, OF this] n show False by simp
  qed
next
  assume a: "\<forall>k. busy k"
  show "icr_busy_wait busy 0 = None"
  proof (cases "icr_busy_wait busy 0")
    case (Some m)
    from icr_busy_wait_stuck [OF this] a show ?thesis by blast
  qed simp
qed

text \<open>
  Claim C3, as amended.  When \<^verbatim>\<open>do_nmi_crash\<close> runs on a processor whose \<^verbatim>\<open>crash_save_done\<close>
  is already true, it goes from \<^verbatim>\<open>stac\<close> straight to the switch on the APIC mode: nothing
  but the trace changes, so \<^verbatim>\<open>waiting_to_crash\<close> and every flag are as before, and there is
  no \<^verbatim>\<open>kexec_crash_save_cpu\<close>.  In x2APIC mode the handler writes the self-NMI to the ICR
  and enters the halt loop; in an unrecognized mode it enters the halt loop at once.  In
  xAPIC mode it waits for the busy bit of the ICR: when some read finds the bit clear it
  writes ICR2 and the ICR and enters the halt loop, and when no read ever does it stays in
  the wait, having called nothing but \<^verbatim>\<open>stac\<close>.
\<close>
theorem reentry_skips_crash_save:
  assumes "crash_save_done s (nmi_cpu d)" and "nmi_cpu d \<noteq> crashing_cpu s"
  shows "do_nmi_crash d s =
           (case local_apic_mode d of
              APIC_MODE_X2APIC \<Rightarrow>
                Halt_loop (s\<lparr>trace := trace s @
                  [(nmi_cpu d, Stac), (nmi_cpu d, Apic_wrmsr_ICR_nmi (x2apic_id d)),
                   (nmi_cpu d, Halt)]\<rparr>)
            | APIC_MODE_XAPIC \<Rightarrow>
                if \<exists>k. \<not> icr_busy d k then
                  Halt_loop (s\<lparr>trace := trace s @
                    [(nmi_cpu d, Stac), (nmi_cpu d, Apic_mem_write_ICR2 (push_bit 24 (xapic_id d))),
                     (nmi_cpu d, Apic_mem_write_ICR_nmi), (nmi_cpu d, Halt)]\<rparr>)
                else Icr_busy_spin (s\<lparr>trace := trace s @ [(nmi_cpu d, Stac)]\<rparr>)
            | APIC_MODE_UNRECOGNIZED \<Rightarrow>
                Halt_loop (s\<lparr>trace := trace s @ [(nmi_cpu d, Stac), (nmi_cpu d, Halt)]\<rparr>))
    \<and> (state_of (do_nmi_crash d s))\<lparr>trace := trace s\<rparr> = s
    \<and> reaches_halt_loop (do_nmi_crash d s) =
        (local_apic_mode d \<noteq> APIC_MODE_XAPIC \<or> (\<exists>k. \<not> icr_busy d k))"
proof -
  let ?c = "nmi_cpu d"
  have once: "crash_save_once ?c (emit ?c Stac s) = emit ?c Stac s"
    using assms(1) by (simp add: crash_save_once_def)
  have ne: "?c \<noteq> crashing_cpu (emit ?c Stac s)"
    using assms(2) by simp
  have eq: "do_nmi_crash d s =
           (case local_apic_mode d of
              APIC_MODE_X2APIC \<Rightarrow>
                Halt_loop (s\<lparr>trace := trace s @
                  [(?c, Stac), (?c, Apic_wrmsr_ICR_nmi (x2apic_id d)), (?c, Halt)]\<rparr>)
            | APIC_MODE_XAPIC \<Rightarrow>
                if \<exists>k. \<not> icr_busy d k then
                  Halt_loop (s\<lparr>trace := trace s @
                    [(?c, Stac), (?c, Apic_mem_write_ICR2 (push_bit 24 (xapic_id d))),
                     (?c, Apic_mem_write_ICR_nmi), (?c, Halt)]\<rparr>)
                else Icr_busy_spin (s\<lparr>trace := trace s @ [(?c, Stac)]\<rparr>)
            | APIC_MODE_UNRECOGNIZED \<Rightarrow>
                Halt_loop (s\<lparr>trace := trace s @ [(?c, Stac), (?c, Halt)]\<rparr>))"
  proof (cases "local_apic_mode d")
    case APIC_MODE_X2APIC
    with once ne show ?thesis
      by (simp add: do_nmi_crash_def Let_def self_nmi_def emit_def)
  next
    case APIC_MODE_UNRECOGNIZED
    with once ne show ?thesis
      by (simp add: do_nmi_crash_def Let_def self_nmi_def emit_def)
  next
    case APIC_MODE_XAPIC
    show ?thesis
    proof (cases "\<exists>k. \<not> icr_busy d k")
      case True
      then have "icr_busy_wait (icr_busy d) 0 \<noteq> None"
        by (simp add: icr_busy_wait_never)
      then obtain m where "icr_busy_wait (icr_busy d) 0 = Some m" by blast
      with once ne APIC_MODE_XAPIC True show ?thesis
        by (simp add: do_nmi_crash_def Let_def self_nmi_def emit_def)
    next
      case False
      then have "icr_busy_wait (icr_busy d) 0 = None"
        by (simp add: icr_busy_wait_never)
      with once ne APIC_MODE_XAPIC False show ?thesis
        by (simp add: do_nmi_crash_def Let_def self_nmi_def emit_def)
    qed
  qed
  have fr: "(state_of (do_nmi_crash d s))\<lparr>trace := trace s\<rparr> = s"
    unfolding eq by (simp split: apic_mode.splits)
  have r: "reaches_halt_loop (do_nmi_crash d s) =
        (local_apic_mode d \<noteq> APIC_MODE_XAPIC \<or> (\<exists>k. \<not> icr_busy d k))"
    unfolding eq by (simp split: apic_mode.splits)
  show ?thesis by (intro conjI eq fr r)
qed

theorem reentry_skips_crash_save_witness:
  "crash_save_done cpu1_done_state (nmi_cpu (nmi_on APIC_MODE_XAPIC 1))
   \<and> nmi_cpu (nmi_on APIC_MODE_XAPIC 1) \<noteq> crashing_cpu cpu1_done_state
   \<and> do_nmi_crash (nmi_on APIC_MODE_XAPIC 1) cpu1_done_state =
       Halt_loop (cpu1_done_state\<lparr>trace :=
         [(1, Stac), (1, Apic_mem_write_ICR2 0x1000000), (1, Apic_mem_write_ICR_nmi), (1, Halt)]\<rparr>)
   \<and> do_nmi_crash (nmi_on APIC_MODE_X2APIC 1) cpu1_done_state =
       Halt_loop (cpu1_done_state\<lparr>trace :=
         [(1, Stac), (1, Apic_wrmsr_ICR_nmi 1), (1, Halt)]\<rparr>)
   \<and> do_nmi_crash (nmi_icr_stuck 1) cpu1_done_state =
       Icr_busy_spin (cpu1_done_state\<lparr>trace := [(1, Stac)]\<rparr>)
   \<and> waiting_to_crash (state_of (do_nmi_crash (nmi_on APIC_MODE_XAPIC 1) cpu1_done_state)) = {2, 3}"
proof -
  let ?s = cpu1_done_state
  have h: "crash_save_done ?s (nmi_cpu (nmi_on m 1))" "nmi_cpu (nmi_on m 1) \<noteq> crashing_cpu ?s"
    "crash_save_done ?s (nmi_cpu (nmi_icr_stuck 1))" "nmi_cpu (nmi_icr_stuck 1) \<noteq> crashing_cpu ?s"
    "trace ?s = []" "waiting_to_crash ?s = {2, 3}"
    for m
    by (simp_all add: cpu1_done_state_def boot_state_def nmi_on_def nmi_icr_stuck_def)
  have clear: "\<exists>k. \<not> icr_busy (nmi_on APIC_MODE_XAPIC 1) k"
    by (rule exI [of _ 2]) (simp add: nmi_on_def)
  have stuck: "\<not> (\<exists>k. \<not> icr_busy (nmi_icr_stuck 1) k)"
    by (simp add: nmi_icr_stuck_def)
  from reentry_skips_crash_save [OF h(1,2), of APIC_MODE_XAPIC] clear h(5)
  have a: "do_nmi_crash (nmi_on APIC_MODE_XAPIC 1) ?s =
       Halt_loop (?s\<lparr>trace :=
         [(1, Stac), (1, Apic_mem_write_ICR2 0x1000000), (1, Apic_mem_write_ICR_nmi), (1, Halt)]\<rparr>)"
    by (simp add: nmi_on_def)
  from reentry_skips_crash_save [OF h(1,2), of APIC_MODE_X2APIC] h(5)
  have b: "do_nmi_crash (nmi_on APIC_MODE_X2APIC 1) ?s =
       Halt_loop (?s\<lparr>trace := [(1, Stac), (1, Apic_wrmsr_ICR_nmi 1), (1, Halt)]\<rparr>)"
    by (simp add: nmi_on_def)
  from reentry_skips_crash_save [OF h(3,4)] stuck h(5)
  have c: "do_nmi_crash (nmi_icr_stuck 1) ?s = Icr_busy_spin (?s\<lparr>trace := [(1, Stac)]\<rparr>)"
    by (simp add: nmi_icr_stuck_def)
  have w: "waiting_to_crash (state_of (do_nmi_crash (nmi_on APIC_MODE_XAPIC 1) ?s)) = {2, 3}"
    unfolding a by (simp add: h(6))
  show ?thesis by (intro conjI h(1,2) a b c w)
qed

text \<open>
  Claim C3 as stated has the handler reach the halt loop on every re-entry.  On an xAPIC
  whose ICR stays busy the loop of lines 104 and 105 never ends, and the halt loop is not
  reached.
\<close>
theorem reentry_icr_stuck_counterexample:
  "crash_save_done cpu1_done_state (nmi_cpu (nmi_icr_stuck 1))
   \<and> nmi_cpu (nmi_icr_stuck 1) \<noteq> crashing_cpu cpu1_done_state
   \<and> \<not> reaches_halt_loop (do_nmi_crash (nmi_icr_stuck 1) cpu1_done_state)"
proof -
  have w: "icr_busy_wait (\<lambda>k. True) 0 = None"
    by (simp add: icr_busy_wait_never)
  show ?thesis
    by (simp add: do_nmi_crash_def crash_save_once_def self_nmi_def Let_def nmi_icr_stuck_def
        cpu1_done_state_def boot_state_def w)
qed

section \<open>Runs and sequence points\<close>

lemma push_simps [simp]:
  "cur (push s r) = s" "tick (push s r) = tick r" "states (push s r) = s # states r"
  by (simp_all add: push_def states_def)

lemma states_tick [simp]: "states (r\<lparr>tick := n\<rparr>) = states r"
  by (simp add: states_def)

lemma cur_in_states [simp]: "cur r \<in> set (states r)"
  by (simp add: states_def)

lemma fold_push_cur:
  "cur (fold (\<lambda>d r. push (deliver_nmi d (cur r)) r) ds r) = fold deliver_nmi ds (cur r)"
  by (induction ds arbitrary: r) simp_all

lemma fold_push_tick:
  "tick (fold (\<lambda>d r. push (deliver_nmi d (cur r)) r) ds r) = tick r"
  by (induction ds arbitrary: r) simp_all

lemma fold_push_states_mono:
  "set (states r) \<subseteq> set (states (fold (\<lambda>d r. push (deliver_nmi d (cur r)) r) ds r))"
proof (induction ds arbitrary: r)
  case (Cons d ds)
  have "set (states r) \<subseteq> set (states (push (deliver_nmi d (cur r)) r))" by auto
  also note Cons.IH
  finally show ?case by simp
qed simp

lemma fold_push_all:
  assumes "\<forall>s\<in>set (states r). I s" and "\<And>d s. d \<in> set ds \<Longrightarrow> I s \<Longrightarrow> I (deliver_nmi d s)"
  shows "\<forall>s\<in>set (states (fold (\<lambda>d r. push (deliver_nmi d (cur r)) r) ds r)). I s"
  using assms
proof (induction ds arbitrary: r)
  case (Cons d ds)
  have "I (cur r)" using Cons.prems(1) by simp
  then have "I (deliver_nmi d (cur r))" using Cons.prems(2) by simp
  with Cons.prems(1) have "\<forall>s\<in>set (states (push (deliver_nmi d (cur r)) r)). I s" by simp
  from Cons.IH [OF this] Cons.prems(2) show ?case by simp
qed simp

lemma fold_push_chain:
  assumes "sorted_wrt (\<lambda>new old. R old new) (states r)"
    and "\<And>a b c. R a b \<Longrightarrow> R b c \<Longrightarrow> R a c"
    and "\<And>d s. R s (deliver_nmi d s)"
  shows "sorted_wrt (\<lambda>new old. R old new) (states (fold (\<lambda>d r. push (deliver_nmi d (cur r)) r) ds r))"
  using assms(1)
proof (induction ds arbitrary: r)
  case (Cons d ds)
  have "R y (deliver_nmi d (cur r))" if "y \<in> set (states r)" for y
  proof (cases "y = cur r")
    case True
    then show ?thesis by (simp add: assms(3))
  next
    case False
    with that Cons.prems have "R y (cur r)" by (auto simp: states_def)
    from assms(2) [OF this assms(3)] show ?thesis .
  qed
  with Cons.prems have "sorted_wrt (\<lambda>new old. R old new) (states (push (deliver_nmi d (cur r)) r))"
    by simp
  from Cons.IH [OF this] show ?case by simp
qed simp

lemma cur_interleave [simp]:
  "cur (interleave env r) = fold deliver_nmi (nmi_arrivals env (tick r)) (cur r)"
  by (simp add: interleave_def fold_push_cur)

lemma tick_interleave [simp]: "tick (interleave env r) = Suc (tick r)"
  by (simp add: interleave_def fold_push_tick)

lemma cur_exec [simp]:
  "cur (exec env f r) = fold deliver_nmi (nmi_arrivals env (tick r)) (f (cur r))"
  by (simp add: exec_def)

lemma tick_exec [simp]: "tick (exec env f r) = Suc (tick r)"
  by (simp add: exec_def)

lemma states_interleave_mono: "set (states r) \<subseteq> set (states (interleave env r))"
  using fold_push_states_mono [of "r\<lparr>tick := Suc (tick r)\<rparr>"] by (simp add: interleave_def)

lemma states_exec_mono: "insert (f (cur r)) (set (states r)) \<subseteq> set (states (exec env f r))"
  using states_interleave_mono [of "push (f (cur r)) r" env] by (simp add: exec_def)

lemma interleave_all:
  assumes "\<forall>s\<in>set (states r). I s"
    and "\<And>d s. d \<in> set (nmi_arrivals env (tick r)) \<Longrightarrow> I s \<Longrightarrow> I (deliver_nmi d s)"
  shows "\<forall>s\<in>set (states (interleave env r)). I s"
  unfolding interleave_def using assms by (intro fold_push_all) simp_all

lemma exec_all:
  assumes "\<forall>s\<in>set (states r). I s" and "I (f (cur r))"
    and "\<And>d s. d \<in> set (nmi_arrivals env (tick r)) \<Longrightarrow> I s \<Longrightarrow> I (deliver_nmi d s)"
  shows "\<forall>s\<in>set (states (exec env f r)). I s"
  unfolding exec_def using assms by (intro interleave_all) simp_all

lemma interleave_chain:
  assumes "sorted_wrt (\<lambda>new old. R old new) (states r)"
    and "\<And>a b c. R a b \<Longrightarrow> R b c \<Longrightarrow> R a c"
    and "\<And>d s. R s (deliver_nmi d s)"
  shows "sorted_wrt (\<lambda>new old. R old new) (states (interleave env r))"
  unfolding interleave_def using assms by (intro fold_push_chain) simp_all

lemma exec_chain:
  assumes "sorted_wrt (\<lambda>new old. R old new) (states r)"
    and "\<And>a b c. R a b \<Longrightarrow> R b c \<Longrightarrow> R a c"
    and "\<And>d s. R s (deliver_nmi d s)"
    and "R (cur r) (f (cur r))"
  shows "sorted_wrt (\<lambda>new old. R old new) (states (exec env f r))"
proof -
  have "R y (f (cur r))" if "y \<in> set (states r)" for y
  proof (cases "y = cur r")
    case True
    then show ?thesis by (simp add: assms(4))
  next
    case False
    with that assms(1) have "R y (cur r)" by (auto simp: states_def)
    from assms(2) [OF this assms(4)] show ?thesis .
  qed
  with assms(1) have "sorted_wrt (\<lambda>new old. R old new) (states (push (f (cur r)) r))" by simp
  then show ?thesis unfolding exec_def using assms(2,3) by (rule interleave_chain)
qed

section \<open>The poll loop\<close>

lemma poll_0 [simp]: "poll_waiting_to_crash env cpu 0 r = (0, r)"
  by (subst poll_waiting_to_crash.simps) simp

lemma poll_empty: "waiting_to_crash (cur r) = {} \<Longrightarrow> poll_waiting_to_crash env cpu m r = (m, r)"
  by (subst poll_waiting_to_crash.simps) simp

lemma poll_Suc:
  "waiting_to_crash (cur r) \<noteq> {} \<Longrightarrow>
   poll_waiting_to_crash env cpu (Suc m) r =
     poll_waiting_to_crash env cpu m (exec env (emit cpu (Mdelay 1)) r)"
  by (subst poll_waiting_to_crash.simps) simp

lemma poll_rule:
  assumes "P m r"
    and "\<And>m r. P (Suc m) r \<Longrightarrow> waiting_to_crash (cur r) \<noteq> {}
           \<Longrightarrow> P m (exec env (emit cpu (Mdelay 1)) r)"
  shows "P (fst (poll_waiting_to_crash env cpu m r)) (snd (poll_waiting_to_crash env cpu m r))"
  using assms(1)
proof (induction m arbitrary: r)
  case 0
  then show ?case by simp
next
  case (Suc m)
  show ?case
  proof (cases "waiting_to_crash (cur r) = {}")
    case True
    with Suc.prems show ?thesis by (simp add: poll_empty)
  next
    case False
    from assms(2) [OF Suc.prems False] have "P m (exec env (emit cpu (Mdelay 1)) r)" .
    from Suc.IH [OF this] False show ?thesis by (simp add: poll_Suc)
  qed
qed

lemma poll_exit:
  "fst (poll_waiting_to_crash env cpu m r) = 0
   \<or> waiting_to_crash (cur (snd (poll_waiting_to_crash env cpu m r))) = {}"
proof (induction m arbitrary: r)
  case 0
  then show ?case by simp
next
  case (Suc m)
  show ?case
  proof (cases "waiting_to_crash (cur r) = {}")
    case True
    then show ?thesis by (simp add: poll_empty)
  next
    case False
    with Suc.IH [of "exec env (emit cpu (Mdelay 1)) r"] show ?thesis by (simp add: poll_Suc)
  qed
qed

section \<open>What an NMI on another processor can change\<close>

lemmas call_defs = set_ist_MC_def stop_this_cpu_def set_gate_lower_NMI_def set_nmi_callback_def

lemmas handler_defs = deliver_nmi_def do_nmi_crash_def crash_save_once_def self_nmi_def Let_def

lemma deliver_nmi_frame [simp]:
  "crashing_cpu (deliver_nmi d s) = crashing_cpu s"
  "idt_nmi (deliver_nmi d s) = idt_nmi s"
  "nmi_callback (deliver_nmi d s) = nmi_callback s"
  "local_irq_count (deliver_nmi d s) = local_irq_count s"
  "x2apic_enabled (deliver_nmi d s) = x2apic_enabled s"
  "xen_phys_start (deliver_nmi d s) = xen_phys_start s"
  "dom0_frame_list_list (deliver_nmi d s) = dom0_frame_list_list s"
  "info_xen_phys_start (deliver_nmi d s) = info_xen_phys_start s"
  "info_dom0_pfn_to_mfn_frame_list_list (deliver_nmi d s) = info_dom0_pfn_to_mfn_frame_list_list s"
  by (auto simp: handler_defs call_defs split: apic_mode.splits option.splits)

lemma deliver_nmi_quiet:
  "nmi_callback s \<noteq> Do_nmi_crash \<or> idt_nmi s (nmi_cpu d) = Trap_nop \<Longrightarrow> deliver_nmi d s = s"
  by (auto simp: deliver_nmi_def)

lemma deliver_nmi_waiting:
  "waiting_to_crash (deliver_nmi d s) = waiting_to_crash s
   \<or> waiting_to_crash (deliver_nmi d s) = waiting_to_crash s - {nmi_cpu d}"
  by (auto simp: handler_defs call_defs split: apic_mode.splits option.splits)

lemma deliver_nmi_done: "crash_save_done s c \<Longrightarrow> crash_save_done (deliver_nmi d s) c"
  by (auto simp: handler_defs call_defs split: apic_mode.splits option.splits)

lemma deliver_nmi_online:
  "cpu_online_map (deliver_nmi d s) = cpu_online_map s
   \<or> cpu_online_map (deliver_nmi d s) = cpu_online_map s - {nmi_cpu d}"
  by (auto simp: handler_defs call_defs split: apic_mode.splits option.splits)

lemma deliver_nmi_trace:
  "\<exists>evs. trace (deliver_nmi d s) = trace s @ map (Pair (nmi_cpu d)) evs \<and> Mdelay 1 \<notin> set evs"
proof (cases "idt_nmi s (nmi_cpu d) = Nmi_entry \<and> nmi_callback s = Do_nmi_crash")
  case False
  then have "trace (deliver_nmi d s) = trace s @ map (Pair (nmi_cpu d)) []"
    by (auto simp: deliver_nmi_def)
  then show ?thesis by (intro exI [of _ "[]"]) simp
next
  case True
  show ?thesis
  proof (cases "nmi_cpu d = crashing_cpu s")
    case c: True
    with True have "trace (deliver_nmi d s) = trace s @ map (Pair (nmi_cpu d)) [Stac]"
      by (simp add: handler_defs)
    then show ?thesis by (intro exI [of _ "[Stac]"]) simp
  next
    case c: False
    let ?a = "if crash_save_done s (nmi_cpu d) then []
              else [Set_ist_MC IST_NONE, Kexec_crash_save_cpu, Stop_this_cpu]"
    let ?b = "case local_apic_mode d of
                APIC_MODE_X2APIC \<Rightarrow> [Apic_wrmsr_ICR_nmi (x2apic_id d), Halt]
              | APIC_MODE_XAPIC \<Rightarrow>
                  (case icr_busy_wait (icr_busy d) 0 of None \<Rightarrow> []
                   | Some k \<Rightarrow> [Apic_mem_write_ICR2 (push_bit 24 (xapic_id d)),
                       Apic_mem_write_ICR_nmi, Halt])
              | APIC_MODE_UNRECOGNIZED \<Rightarrow> [Halt]"
    from True c have "trace (deliver_nmi d s) = trace s @ map (Pair (nmi_cpu d)) (Stac # ?a @ ?b)"
      by (auto simp: handler_defs call_defs split: apic_mode.splits option.splits)
    moreover have "Mdelay 1 \<notin> set (Stac # ?a @ ?b)"
      by (auto split: apic_mode.splits option.splits)
    ultimately show ?thesis by blast
  qed
qed

lemma mdelays_simps [simp]:
  "mdelays (tr @ tr') = mdelays tr + mdelays tr'"
  "mdelays [] = 0"
  "mdelays ((c, e) # tr) = (if e = Mdelay 1 then 1 else 0) + mdelays tr"
  by (simp_all add: mdelays_def)

lemma mdelays_map_Pair: "Mdelay 1 \<notin> set evs \<Longrightarrow> mdelays (map (Pair c) evs) = 0"
  by (induction evs) auto

lemma deliver_nmi_mdelays [simp]: "mdelays (trace (deliver_nmi d s)) = mdelays (trace s)"
  using deliver_nmi_trace [of d s] by (auto simp: mdelays_map_Pair)

lemma deliveries_frame [simp]:
  "crashing_cpu (fold deliver_nmi ds s) = crashing_cpu s"
  "idt_nmi (fold deliver_nmi ds s) = idt_nmi s"
  "nmi_callback (fold deliver_nmi ds s) = nmi_callback s"
  "local_irq_count (fold deliver_nmi ds s) = local_irq_count s"
  "x2apic_enabled (fold deliver_nmi ds s) = x2apic_enabled s"
  "xen_phys_start (fold deliver_nmi ds s) = xen_phys_start s"
  "dom0_frame_list_list (fold deliver_nmi ds s) = dom0_frame_list_list s"
  "info_xen_phys_start (fold deliver_nmi ds s) = info_xen_phys_start s"
  "info_dom0_pfn_to_mfn_frame_list_list (fold deliver_nmi ds s) = info_dom0_pfn_to_mfn_frame_list_list s"
  "mdelays (trace (fold deliver_nmi ds s)) = mdelays (trace s)"
  by (induction ds arbitrary: s) simp_all

lemma deliveries_waiting: "waiting_to_crash (fold deliver_nmi ds s) \<subseteq> waiting_to_crash s"
proof (induction ds arbitrary: s)
  case (Cons d ds)
  have "waiting_to_crash (fold deliver_nmi ds (deliver_nmi d s)) \<subseteq> waiting_to_crash (deliver_nmi d s)"
    by (rule Cons.IH)
  also have "\<dots> \<subseteq> waiting_to_crash s" using deliver_nmi_waiting [of d s] by auto
  finally show ?case by simp
qed simp

lemma deliveries_waiting_empty [simp]:
  "waiting_to_crash s = {} \<Longrightarrow> waiting_to_crash (fold deliver_nmi ds s) = {}"
  using deliveries_waiting [of ds s] by simp

lemma deliveries_quiet:
  "nmi_callback s \<noteq> Do_nmi_crash \<Longrightarrow> fold deliver_nmi ds s = s"
  by (induction ds arbitrary: s) (simp_all add: deliver_nmi_quiet)

subsection \<open>Fields that the loop and the later phases keep\<close>

lemma poll_keeps:
  assumes "\<And>e s. g (emit cpu e s) = g s" and "\<And>ds s. g (fold deliver_nmi ds s) = g s"
  shows "g (cur (snd (poll_waiting_to_crash env cpu m r))) = g (cur r)"
  by (rule poll_rule [where P = "\<lambda>m r'. g (cur r') = g (cur r)"]) (simp_all add: assms)

lemma poll_mdelays:
  "mdelays (trace (cur (snd (poll_waiting_to_crash env cpu m r)))) + fst (poll_waiting_to_crash env cpu m r)
     = mdelays (trace (cur r)) + m"
  by (rule poll_rule [where P = "\<lambda>m' r'. mdelays (trace (cur r')) + m' = mdelays (trace (cur r)) + m"])
     simp_all

lemma poll_le: "fst (poll_waiting_to_crash env cpu m r) \<le> m"
  by (rule poll_rule [where P = "\<lambda>m' r'. m' \<le> m"]) simp_all

lemma prepare_mdelays [simp]:
  "mdelays (trace (cur (shootdown_prepare env cpu r))) = mdelays (trace (cur r))"
  by (simp add: shootdown_prepare_def call_defs)

lemma report_mdelays [simp]:
  "mdelays (trace (cur (shootdown_report env cpu r))) = mdelays (trace (cur r))"
  by (simp add: shootdown_report_def Let_def)

lemma local_mdelays [simp]:
  "mdelays (trace (cur (shootdown_local env cpu r))) = mdelays (trace (cur r))"
  by (simp add: shootdown_local_def Let_def call_defs)

lemma report_waiting_empty [simp]:
  "waiting_to_crash (cur r) = {} \<Longrightarrow> waiting_to_crash (cur (shootdown_report env cpu r)) = {}"
  by (simp add: shootdown_report_def Let_def)

lemma local_waiting_empty [simp]:
  "waiting_to_crash (cur r) = {} \<Longrightarrow> waiting_to_crash (cur (shootdown_local env cpu r)) = {}"
  by (simp add: shootdown_local_def Let_def call_defs)

text \<open>
  Claim C1.  The loop of \<^verbatim>\<open>nmi_shootdown_cpus\<close> leaves only with \<^verbatim>\<open>msecs\<close> at zero or with
  \<^verbatim>\<open>waiting_to_crash\<close> empty; it has then called \<^verbatim>\<open>mdelay(1)\<close> exactly \<open>1000 - msecs\<close> times,
  and no later statement calls it again.  So when \<^verbatim>\<open>nmi_shootdown_cpus\<close> returns, the mask is
  empty or a thousand delays of one millisecond have passed.  A test that finds the mask
  empty ends the loop at once; a test that finds it non-empty with \<^verbatim>\<open>msecs\<close> left goes
  round once more.  This holds for every environment, that is for every set of online
  processors and every schedule of NMIs.
\<close>
theorem poll_bounded:
  "(let r1 = shootdown_prepare env cpu r0;
        (msecs, r2) = poll_waiting_to_crash env cpu 1000 r1;
        r3 = nmi_shootdown_cpus env cpu r0
    in (msecs = 0 \<or> waiting_to_crash (cur r2) = {})
     \<and> msecs \<le> 1000
     \<and> mdelays (trace (cur r2)) = mdelays (trace (cur r0)) + (1000 - msecs)
     \<and> mdelays (trace (cur r3)) = mdelays (trace (cur r2))
     \<and> (waiting_to_crash (cur r3) = {} \<or> mdelays (trace (cur r3)) = mdelays (trace (cur r0)) + 1000))
   \<and> (waiting_to_crash (cur r) = {} \<longrightarrow> poll_waiting_to_crash env cpu m r = (m, r))
   \<and> (waiting_to_crash (cur r) \<noteq> {} \<and> m \<noteq> 0 \<longrightarrow>
        poll_waiting_to_crash env cpu m r =
          poll_waiting_to_crash env cpu (m - 1) (exec env (emit cpu (Mdelay 1)) r))"
proof -
  define r1 where "r1 = shootdown_prepare env cpu r0"
  define p where "p = poll_waiting_to_crash env cpu 1000 r1"
  define r3 where "r3 = nmi_shootdown_cpus env cpu r0"
  have r3: "r3 = shootdown_local env cpu (shootdown_report env cpu (snd p))"
    by (simp add: r3_def nmi_shootdown_cpus_def p_def r1_def split: prod.splits)
  have a: "fst p = 0 \<or> waiting_to_crash (cur (snd p)) = {}"
    unfolding p_def by (rule poll_exit)
  have b: "fst p \<le> 1000"
    unfolding p_def by (rule poll_le)
  have "mdelays (trace (cur (snd p))) + fst p = mdelays (trace (cur r1)) + 1000"
    unfolding p_def by (rule poll_mdelays)
  with b have c: "mdelays (trace (cur (snd p))) = mdelays (trace (cur r0)) + (1000 - fst p)"
    by (simp add: r1_def)
  have d: "mdelays (trace (cur r3)) = mdelays (trace (cur (snd p)))"
    by (simp add: r3)
  have e: "waiting_to_crash (cur r3) = {} \<or> mdelays (trace (cur r3)) = mdelays (trace (cur r0)) + 1000"
    using a c d by (auto simp: r3)
  have f: "waiting_to_crash (cur r) = {} \<longrightarrow> poll_waiting_to_crash env cpu m r = (m, r)"
    by (simp add: poll_empty)
  have g: "waiting_to_crash (cur r) \<noteq> {} \<and> m \<noteq> 0 \<longrightarrow>
        poll_waiting_to_crash env cpu m r =
          poll_waiting_to_crash env cpu (m - 1) (exec env (emit cpu (Mdelay 1)) r)"
    by (subst poll_waiting_to_crash.simps) simp
  from a b c d e f g show ?thesis
    by (auto simp add: Let_def r1_def [symmetric] p_def [symmetric] r3_def [symmetric] split: prod.splits)
qed

theorem poll_bounded_witness:
  "waiting_to_crash (cur boot_run) = {}
   \<and> poll_waiting_to_crash env_cpu2_hangs 0 1000 boot_run = (1000, boot_run)
   \<and> waiting_to_crash (cur (shootdown_prepare env_cpu2_hangs 0 boot_run)) \<noteq> {}
   \<and> poll_waiting_to_crash env_cpu2_hangs 0 1000 (shootdown_prepare env_cpu2_hangs 0 boot_run) =
       poll_waiting_to_crash env_cpu2_hangs 0 999
         (exec env_cpu2_hangs (emit 0 (Mdelay 1)) (shootdown_prepare env_cpu2_hangs 0 boot_run))
   \<and> waiting_to_crash (cur (shootdown_prepare env_all_respond 0 boot_run)) = {}
   \<and> mdelays (trace (cur (nmi_shootdown_cpus env_all_respond 0 boot_run))) = 0"
proof -
  have h1: "waiting_to_crash (cur boot_run) = {}"
    by (simp add: boot_run_def boot_state_def)
  have h2: "waiting_to_crash (cur (shootdown_prepare env_cpu2_hangs 0 boot_run)) = {2}"
    by (simp add: shootdown_prepare_def env_cpu2_hangs_def boot_run_def boot_state_def nmi_on_def
        call_defs handler_defs emit_def icr_busy_wait.simps) auto
  have h3: "waiting_to_crash (cur (shootdown_prepare env_all_respond 0 boot_run)) = {}"
    by (simp add: shootdown_prepare_def env_all_respond_def boot_run_def boot_state_def nmi_on_def
        call_defs handler_defs emit_def)
  have h4: "mdelays (trace (cur boot_run)) = 0"
    by (simp add: boot_run_def boot_state_def)
  from poll_bounded [of env_cpu2_hangs 0 boot_run boot_run 1000] h1
  have a: "poll_waiting_to_crash env_cpu2_hangs 0 1000 boot_run = (1000, boot_run)"
    by blast
  from poll_bounded [of env_cpu2_hangs 0 boot_run "shootdown_prepare env_cpu2_hangs 0 boot_run" 1000] h2
  have b: "poll_waiting_to_crash env_cpu2_hangs 0 1000 (shootdown_prepare env_cpu2_hangs 0 boot_run) =
       poll_waiting_to_crash env_cpu2_hangs 0 999
         (exec env_cpu2_hangs (emit 0 (Mdelay 1)) (shootdown_prepare env_cpu2_hangs 0 boot_run))"
    by simp
  from poll_bounded [of env_all_respond 0 boot_run boot_run 1000] h3 h4
  have c: "mdelays (trace (cur (nmi_shootdown_cpus env_all_respond 0 boot_run))) = 0"
    by (simp add: Let_def poll_empty)
  from h1 h2 h3 a b c show ?thesis by simp
qed

section \<open>The calls of the coordinating processor\<close>

lemma events_of_simps [simp]:
  "events_of cpu (tr @ tr') = events_of cpu tr @ events_of cpu tr'"
  "events_of cpu [] = []"
  "events_of cpu ((c, e) # tr) = (if c = cpu then e # events_of cpu tr else events_of cpu tr)"
  by (simp_all add: events_of_def)

lemma events_of_other: "c \<noteq> cpu \<Longrightarrow> events_of cpu (map (Pair c) evs) = []"
  by (induction evs) simp_all

lemma deliver_nmi_events:
  assumes "nmi_callback s \<noteq> Do_nmi_crash \<or> idt_nmi s cpu = Trap_nop"
  shows "events_of cpu (trace (deliver_nmi d s)) = events_of cpu (trace s)"
proof (cases "nmi_cpu d = cpu")
  case True
  with assms show ?thesis by (simp add: deliver_nmi_quiet)
next
  case False
  with deliver_nmi_trace [of d s] show ?thesis by (auto simp: events_of_other)
qed

lemma deliver_nmi_online_masked:
  assumes "nmi_callback s \<noteq> Do_nmi_crash \<or> idt_nmi s cpu = Trap_nop"
  shows "(cpu \<in> cpu_online_map (deliver_nmi d s)) = (cpu \<in> cpu_online_map s)"
proof (cases "nmi_cpu d = cpu")
  case True
  with assms show ?thesis by (simp add: deliver_nmi_quiet)
next
  case False
  with deliver_nmi_online [of d s] show ?thesis by auto
qed

lemma deliveries_events [simp]:
  "idt_nmi s cpu = Trap_nop \<Longrightarrow>
   events_of cpu (trace (fold deliver_nmi ds s)) = events_of cpu (trace s)"
  by (induction ds arbitrary: s) (simp_all add: deliver_nmi_events)

lemma deliveries_online [simp]:
  "idt_nmi s cpu = Trap_nop \<Longrightarrow>
   (cpu \<in> cpu_online_map (fold deliver_nmi ds s)) = (cpu \<in> cpu_online_map s)"
  by (induction ds arbitrary: s) (simp_all add: deliver_nmi_online_masked)

lemma prepare_fields [simp]:
  "idt_nmi (cur (shootdown_prepare env cpu r)) cpu = Trap_nop"
  "crashing_cpu (cur (shootdown_prepare env cpu r)) = cpu"
  "nmi_callback (cur (shootdown_prepare env cpu r)) = Do_nmi_crash"
  "xen_phys_start (cur (shootdown_prepare env cpu r)) = xen_phys_start (cur r)"
  "dom0_frame_list_list (cur (shootdown_prepare env cpu r)) = dom0_frame_list_list (cur r)"
  "tick (shootdown_prepare env cpu r) = tick r + 9"
  by (simp_all add: shootdown_prepare_def call_defs)

lemma prepare_events:
  assumes "nmi_callback (cur r) \<noteq> Do_nmi_crash"
  shows "events_of cpu (trace (cur (shootdown_prepare env cpu r))) =
           events_of cpu (trace (cur r)) @
           [Disable_lapic_nmi_watchdog, Local_irq_disable, Set_gate_lower_NMI Trap_nop,
            Set_ist_MC IST_NONE, Set_nmi_callback Do_nmi_crash, Smp_send_nmi_allbutself]"
    and "(cpu \<in> cpu_online_map (cur (shootdown_prepare env cpu r))) = (cpu \<in> cpu_online_map (cur r))"
  using assms by (simp_all add: shootdown_prepare_def call_defs deliveries_quiet)

lemma poll_fields [simp]:
  "idt_nmi (cur (snd (poll_waiting_to_crash env cpu m r))) = idt_nmi (cur r)"
  "crashing_cpu (cur (snd (poll_waiting_to_crash env cpu m r))) = crashing_cpu (cur r)"
  "nmi_callback (cur (snd (poll_waiting_to_crash env cpu m r))) = nmi_callback (cur r)"
  "xen_phys_start (cur (snd (poll_waiting_to_crash env cpu m r))) = xen_phys_start (cur r)"
  "dom0_frame_list_list (cur (snd (poll_waiting_to_crash env cpu m r))) = dom0_frame_list_list (cur r)"
  by (rule poll_keeps; simp)+

lemma poll_events:
  assumes "idt_nmi (cur r) cpu = Trap_nop"
  shows "events_of cpu (trace (cur (snd (poll_waiting_to_crash env cpu m r)))) =
           events_of cpu (trace (cur r)) @
           replicate (m - fst (poll_waiting_to_crash env cpu m r)) (Mdelay 1)
         \<and> (cpu \<in> cpu_online_map (cur (snd (poll_waiting_to_crash env cpu m r))))
             = (cpu \<in> cpu_online_map (cur r))"
proof -
  let ?P = "\<lambda>m' (r'::run). idt_nmi (cur r') cpu = Trap_nop \<and> m' \<le> m
     \<and> events_of cpu (trace (cur r')) = events_of cpu (trace (cur r)) @ replicate (m - m') (Mdelay 1)
     \<and> (cpu \<in> cpu_online_map (cur r')) = (cpu \<in> cpu_online_map (cur r))"
  have "?P (fst (poll_waiting_to_crash env cpu m r)) (snd (poll_waiting_to_crash env cpu m r))"
  proof (rule poll_rule [where P = ?P])
    show "?P m r" using assms by simp
  next
    fix m' and r' :: run
    assume p: "?P (Suc m') r'"
    then have "m - m' = Suc (m - Suc m')" by arith
    with p show "?P m' (exec env (emit cpu (Mdelay 1)) r')"
      by (simp add: replicate_append_same)
  qed
  then show ?thesis by simp
qed

lemma report_fields [simp]:
  "idt_nmi (cur (shootdown_report env cpu r)) = idt_nmi (cur r)"
  "crashing_cpu (cur (shootdown_report env cpu r)) = crashing_cpu (cur r)"
  "nmi_callback (cur (shootdown_report env cpu r)) = nmi_callback (cur r)"
  "xen_phys_start (cur (shootdown_report env cpu r)) = xen_phys_start (cur r)"
  "dom0_frame_list_list (cur (shootdown_report env cpu r)) = dom0_frame_list_list (cur r)"
  by (simp_all add: shootdown_report_def Let_def)

text \<open>What line 157 tests and what line 161 prints.\<close>
lemma report_events:
  assumes "idt_nmi (cur r) cpu = Trap_nop"
  shows "events_of cpu (trace (cur (shootdown_report env cpu r))) =
           events_of cpu (trace (cur r)) @
           [Console_force_unlock,
            Printk (if waiting_to_crash (cur (exec env (emit cpu Console_force_unlock) r)) = {}
                    then Shot_down_all_CPUs
                    else Failed_to_shoot_down_CPUs (waiting_to_crash
                      (cur (interleave env (exec env (emit cpu Console_force_unlock) r))))),
            Iommu_crash_shutdown]"
    and "(cpu \<in> cpu_online_map (cur (shootdown_report env cpu r))) = (cpu \<in> cpu_online_map (cur r))"
  using assms by (simp_all add: shootdown_report_def Let_def)

lemma local_fields [simp]:
  "idt_nmi (cur (shootdown_local env cpu r)) = idt_nmi (cur r)"
  "crashing_cpu (cur (shootdown_local env cpu r)) = crashing_cpu (cur r)"
  "nmi_callback (cur (shootdown_local env cpu r)) = nmi_callback (cur r)"
  "xen_phys_start (cur (shootdown_local env cpu r)) = xen_phys_start (cur r)"
  "dom0_frame_list_list (cur (shootdown_local env cpu r)) = dom0_frame_list_list (cur r)"
  by (simp_all add: shootdown_local_def Let_def call_defs)

lemma local_events:
  assumes "idt_nmi (cur r) cpu = Trap_nop"
  shows "events_of cpu (trace (cur (shootdown_local env cpu r))) =
           events_of cpu (trace (cur r)) @
           (if cpu \<in> cpu_online_map (cur r) then
              [Stop_this_cpu, Pcidevs_trylock (pcidevs_lock_free env)] @
              (if pcidevs_lock_free env then [Pci_disable_msi_all, Pcidevs_unlock] else []) @
              [Disable_IO_APIC, Hpet_disable, Iommu_quiesce]
            else [])"
  using assms by (simp add: shootdown_local_def Let_def call_defs)

lemma nmi_shootdown_cpus_unfold:
  "nmi_shootdown_cpus env cpu r =
     shootdown_local env cpu (shootdown_report env cpu
       (snd (poll_waiting_to_crash env cpu 1000 (shootdown_prepare env cpu r))))"
  by (simp add: nmi_shootdown_cpus_def split: prod.splits)

lemma nmi_shootdown_cpus_fields [simp]:
  "idt_nmi (cur (nmi_shootdown_cpus env cpu r)) cpu = Trap_nop"
  "crashing_cpu (cur (nmi_shootdown_cpus env cpu r)) = cpu"
  "nmi_callback (cur (nmi_shootdown_cpus env cpu r)) = Do_nmi_crash"
  "xen_phys_start (cur (nmi_shootdown_cpus env cpu r)) = xen_phys_start (cur r)"
  "dom0_frame_list_list (cur (nmi_shootdown_cpus env cpu r)) = dom0_frame_list_list (cur r)"
  by (simp_all add: nmi_shootdown_cpus_unfold)

lemma machine_crash_shutdown_events:
  "events_of cpu (trace (cur (machine_crash_shutdown env cpu r))) =
     events_of cpu (trace (cur (nmi_shootdown_cpus env cpu r))) @ [Kexec_crash_save_info]"
  by (simp add: machine_crash_shutdown_def)

lemma machine_crash_shutdown_info:
  "info_xen_phys_start (cur (machine_crash_shutdown env cpu r)) = Some (xen_phys_start (cur r))"
  "info_dom0_pfn_to_mfn_frame_list_list (cur (machine_crash_shutdown env cpu r)) =
     Some (dom0_frame_list_list (cur r))"
  by (simp_all add: machine_crash_shutdown_def)

section \<open>The sequence as a whole\<close>

lemmas example_defs = env_all_respond_def env_cpu2_hangs_def boot_run_def boot_state_def nmi_on_def

lemma prepare_all_respond:
  "waiting_to_crash (cur (shootdown_prepare env_all_respond 0 boot_run)) = {}"
  by (simp add: shootdown_prepare_def example_defs call_defs handler_defs emit_def)

lemma all_respond_events:
  "events_of 0 (trace (cur (machine_crash_shutdown env_all_respond 0 boot_run))) =
     [Disable_lapic_nmi_watchdog, Local_irq_disable, Set_gate_lower_NMI Trap_nop,
      Set_ist_MC IST_NONE, Set_nmi_callback Do_nmi_crash, Smp_send_nmi_allbutself,
      Console_force_unlock, Printk Shot_down_all_CPUs, Iommu_crash_shutdown,
      Stop_this_cpu, Pcidevs_trylock True, Pci_disable_msi_all, Pcidevs_unlock,
      Disable_IO_APIC, Hpet_disable, Iommu_quiesce, Kexec_crash_save_info]"
proof -
  have h1: "nmi_callback (cur boot_run) \<noteq> Do_nmi_crash" "0 \<in> cpu_online_map (cur boot_run)"
    "trace (cur boot_run) = []" "pcidevs_lock_free env_all_respond"
    by (simp_all add: boot_run_def boot_state_def env_all_respond_def)
  show ?thesis
    by (simp add: machine_crash_shutdown_events nmi_shootdown_cpus_unfold poll_empty
        prepare_all_respond local_events report_events prepare_events h1)
qed

text \<open>
  Claim C7.  On a coordinating processor that is online, the only call on the device-list
  lock is \<^verbatim>\<open>pcidevs_trylock\<close>, made once, right after \<^verbatim>\<open>__stop_this_cpu\<close>.  When it
  succeeds it is followed by \<^verbatim>\<open>pci_disable_msi_all\<close> and \<^verbatim>\<open>pcidevs_unlock\<close>; when it fails
  neither is called anywhere.  Either way \<^verbatim>\<open>disable_IO_APIC\<close>, \<^verbatim>\<open>hpet_disable\<close>,
  \<^verbatim>\<open>iommu_quiesce\<close> and \<^verbatim>\<open>kexec_crash_save_info\<close> follow, and both fields of the crash
  record are written.
\<close>
theorem trylock_guards_msi_disable:
  assumes "nmi_callback (cur r0) \<noteq> Do_nmi_crash" and "cpu \<in> cpu_online_map (cur r0)"
  shows "\<exists>before. events_of cpu (trace (cur (machine_crash_shutdown env cpu r0))) =
           events_of cpu (trace (cur r0)) @ before @
           [Iommu_crash_shutdown, Stop_this_cpu, Pcidevs_trylock (pcidevs_lock_free env)] @
           (if pcidevs_lock_free env then [Pci_disable_msi_all, Pcidevs_unlock] else []) @
           [Disable_IO_APIC, Hpet_disable, Iommu_quiesce, Kexec_crash_save_info]
         \<and> Pci_disable_msi_all \<notin> set before \<and> Pcidevs_unlock \<notin> set before
         \<and> (\<forall>b. Pcidevs_trylock b \<notin> set before)
         \<and> info_xen_phys_start (cur (machine_crash_shutdown env cpu r0)) \<noteq> None
         \<and> info_dom0_pfn_to_mfn_frame_list_list (cur (machine_crash_shutdown env cpu r0)) \<noteq> None"
proof -
  let ?r1 = "shootdown_prepare env cpu r0"
  let ?p = "poll_waiting_to_crash env cpu 1000 ?r1"
  let ?before = "[Disable_lapic_nmi_watchdog, Local_irq_disable, Set_gate_lower_NMI Trap_nop,
            Set_ist_MC IST_NONE, Set_nmi_callback Do_nmi_crash, Smp_send_nmi_allbutself] @
      replicate (1000 - fst ?p) (Mdelay 1) @
           [Console_force_unlock,
            Printk (if waiting_to_crash (cur (exec env (emit cpu Console_force_unlock) (snd ?p))) = {}
                    then Shot_down_all_CPUs
                    else Failed_to_shoot_down_CPUs (waiting_to_crash
                      (cur (interleave env (exec env (emit cpu Console_force_unlock) (snd ?p))))))]"
  have "events_of cpu (trace (cur (machine_crash_shutdown env cpu r0))) =
           events_of cpu (trace (cur r0)) @ ?before @
           [Iommu_crash_shutdown, Stop_this_cpu, Pcidevs_trylock (pcidevs_lock_free env)] @
           (if pcidevs_lock_free env then [Pci_disable_msi_all, Pcidevs_unlock] else []) @
           [Disable_IO_APIC, Hpet_disable, Iommu_quiesce, Kexec_crash_save_info]"
    using assms
    by (simp add: machine_crash_shutdown_events nmi_shootdown_cpus_unfold
        local_events report_events poll_events prepare_events)
  moreover have "Pci_disable_msi_all \<notin> set ?before \<and> Pcidevs_unlock \<notin> set ?before
         \<and> (\<forall>b. Pcidevs_trylock b \<notin> set ?before)"
    by simp
  moreover have "info_xen_phys_start (cur (machine_crash_shutdown env cpu r0)) \<noteq> None
         \<and> info_dom0_pfn_to_mfn_frame_list_list (cur (machine_crash_shutdown env cpu r0)) \<noteq> None"
    by (simp add: machine_crash_shutdown_info)
  ultimately show ?thesis by blast
qed

theorem trylock_guards_msi_disable_witness:
  "nmi_callback (cur boot_run) \<noteq> Do_nmi_crash \<and> 0 \<in> cpu_online_map (cur boot_run)
   \<and> \<not> pcidevs_lock_free env_cpu2_hangs
   \<and> (\<exists>before. events_of 0 (trace (cur (machine_crash_shutdown env_cpu2_hangs 0 boot_run))) =
           before @
           [Iommu_crash_shutdown, Stop_this_cpu, Pcidevs_trylock False,
            Disable_IO_APIC, Hpet_disable, Iommu_quiesce, Kexec_crash_save_info]
         \<and> Pci_disable_msi_all \<notin> set before \<and> Pcidevs_unlock \<notin> set before)
   \<and> pcidevs_lock_free env_all_respond
   \<and> events_of 0 (trace (cur (machine_crash_shutdown env_all_respond 0 boot_run))) =
       [Disable_lapic_nmi_watchdog, Local_irq_disable, Set_gate_lower_NMI Trap_nop,
        Set_ist_MC IST_NONE, Set_nmi_callback Do_nmi_crash, Smp_send_nmi_allbutself,
        Console_force_unlock, Printk Shot_down_all_CPUs, Iommu_crash_shutdown,
        Stop_this_cpu, Pcidevs_trylock True, Pci_disable_msi_all, Pcidevs_unlock,
        Disable_IO_APIC, Hpet_disable, Iommu_quiesce, Kexec_crash_save_info]"
proof -
  have h1: "nmi_callback (cur boot_run) \<noteq> Do_nmi_crash"
    by (simp add: boot_run_def boot_state_def)
  have h5: "pcidevs_lock_free env_all_respond"
    by (simp add: env_all_respond_def)
  have h2: "0 \<in> cpu_online_map (cur boot_run)"
    by (simp add: boot_run_def boot_state_def)
  have h3: "\<not> pcidevs_lock_free env_cpu2_hangs"
    by (simp add: env_cpu2_hangs_def)
  have h4: "trace (cur boot_run) = []"
    by (simp add: boot_run_def boot_state_def)
  from trylock_guards_msi_disable [OF h1 h2, of env_cpu2_hangs]
  obtain before where "events_of 0 (trace (cur (machine_crash_shutdown env_cpu2_hangs 0 boot_run))) =
           events_of 0 (trace (cur boot_run)) @ before @
           [Iommu_crash_shutdown, Stop_this_cpu, Pcidevs_trylock (pcidevs_lock_free env_cpu2_hangs)] @
           (if pcidevs_lock_free env_cpu2_hangs then [Pci_disable_msi_all, Pcidevs_unlock] else []) @
           [Disable_IO_APIC, Hpet_disable, Iommu_quiesce, Kexec_crash_save_info]"
         and "Pci_disable_msi_all \<notin> set before" and "Pcidevs_unlock \<notin> set before"
    by blast
  with h3 h4 have "events_of 0 (trace (cur (machine_crash_shutdown env_cpu2_hangs 0 boot_run))) =
           before @
           [Iommu_crash_shutdown, Stop_this_cpu, Pcidevs_trylock False,
            Disable_IO_APIC, Hpet_disable, Iommu_quiesce, Kexec_crash_save_info]
         \<and> Pci_disable_msi_all \<notin> set before \<and> Pcidevs_unlock \<notin> set before"
    by simp
  then have "\<exists>before. events_of 0 (trace (cur (machine_crash_shutdown env_cpu2_hangs 0 boot_run))) =
           before @
           [Iommu_crash_shutdown, Stop_this_cpu, Pcidevs_trylock False,
            Disable_IO_APIC, Hpet_disable, Iommu_quiesce, Kexec_crash_save_info]
         \<and> Pci_disable_msi_all \<notin> set before \<and> Pcidevs_unlock \<notin> set before" ..
  then show ?thesis by (intro conjI h1 h2 h3 h5 all_respond_events)
qed

text \<open>
  Claim C2, as amended.  After \<^verbatim>\<open>machine_crash_shutdown\<close> both fields of the crash record
  have been assigned, whatever the other processors did: \<^verbatim>\<open>xen_phys_start\<close> holds the value
  of the global of that name and \<^verbatim>\<open>dom0_pfn_to_mfn_frame_list_list\<close> the value read from the
  hardware domain.  The values are copied without a check, so a field is zero when its
  source is.
\<close>
theorem crash_info_written:
  "info_xen_phys_start (cur (machine_crash_shutdown env cpu r0)) = Some (xen_phys_start (cur r0))
   \<and> info_dom0_pfn_to_mfn_frame_list_list (cur (machine_crash_shutdown env cpu r0)) =
       Some (dom0_frame_list_list (cur r0))"
  by (simp add: machine_crash_shutdown_info)

theorem crash_info_written_witness:
  "info_xen_phys_start (cur (machine_crash_shutdown env_cpu2_hangs 0 boot_run)) = Some 0x7F000000
   \<and> info_dom0_pfn_to_mfn_frame_list_list (cur (machine_crash_shutdown env_cpu2_hangs 0 boot_run)) =
       Some 0x12345"
  using crash_info_written [of env_cpu2_hangs 0 boot_run]
  by (simp add: boot_run_def boot_state_def)

text \<open>
  Claim C2 as stated asks for fields that are not empty.  With both sources zero the
  record holds a zero base address and a null frame list reference.
\<close>
theorem crash_info_zero_counterexample:
  "info_xen_phys_start (cur (machine_crash_shutdown env_all_respond 0 zero_sources_run)) = Some 0
   \<and> info_dom0_pfn_to_mfn_frame_list_list
       (cur (machine_crash_shutdown env_all_respond 0 zero_sources_run)) = Some 0"
  by (simp add: machine_crash_shutdown_info zero_sources_run_def)

section \<open>Properties of every state the sequence passes through\<close>

text \<open>
  The statements up to the broadcast never write \<^verbatim>\<open>crash_save_done\<close>, and what they add to
  the trace are calls of the coordinating processor other than \<^verbatim>\<open>stac\<close> and
  \<^verbatim>\<open>kexec_crash_save_cpu\<close>.
\<close>
lemma through_prepare:
  assumes step: "\<And>r f. P r \<Longrightarrow>
      (\<forall>s. crash_save_done (f s) = crash_save_done s
         \<and> (trace (f s) = trace s
              \<or> (\<exists>e. e \<noteq> Kexec_crash_save_cpu \<and> e \<noteq> Stac \<and> trace (f s) = trace s @ [(cpu, e)]))) \<Longrightarrow> P (exec env f r)"
    and start: "P r0"
  shows "P (shootdown_prepare env cpu r0)"
  unfolding shootdown_prepare_def Let_def
  by (intro step start) (simp_all add: call_defs)

text \<open>
  After the broadcast no statement of the coordinating processor writes \<^verbatim>\<open>waiting_to_crash\<close>,
  \<^verbatim>\<open>crashing_cpu\<close> or \<^verbatim>\<open>crash_save_done\<close>.  A property of runs that such statements and the
  sequence points keep therefore carries over from the end of the preparation to the end
  of \<^verbatim>\<open>machine_crash_shutdown\<close>.
\<close>
lemma after_prepare:
  assumes step: "\<And>r f. P r \<Longrightarrow>
      (\<forall>s. waiting_to_crash (f s) = waiting_to_crash s \<and> crashing_cpu (f s) = crashing_cpu s
         \<and> crash_save_done (f s) = crash_save_done s
         \<and> (trace (f s) = trace s
              \<or> (\<exists>e. e \<noteq> Kexec_crash_save_cpu \<and> e \<noteq> Stac \<and> trace (f s) = trace s @ [(cpu, e)]))) \<Longrightarrow> P (exec env f r)"
    and point: "\<And>r. P r \<Longrightarrow> P (interleave env r)"
    and start: "P (shootdown_prepare env cpu r0)"
  shows "P (machine_crash_shutdown env cpu r0)"
proof -
  let ?r1 = "shootdown_prepare env cpu r0"
  let ?r2 = "snd (poll_waiting_to_crash env cpu 1000 ?r1)"
  have p2: "P ?r2"
    by (rule poll_rule [where P = "\<lambda>m r. P r"])
       (auto intro!: start step)
  have split: "P (if b then x else y)" if "P x" "P y" for b x y
    using that by simp
  have p3: "P (shootdown_report env cpu ?r2)"
    unfolding shootdown_report_def Let_def
    by (intro step point split p2) simp_all
  have p4: "P (shootdown_local env cpu (shootdown_report env cpu ?r2))"
    unfolding shootdown_local_def Let_def
    by (intro step point split p3) (simp_all add: call_defs)
  show ?thesis
    unfolding machine_crash_shutdown_def nmi_shootdown_cpus_unfold Let_def
    by (intro step p4) simp_all
qed

lemma deliveries_rule:
  assumes "T s" and "\<And>d s. d \<in> set ds \<Longrightarrow> T s \<Longrightarrow> T (deliver_nmi d s)"
  shows "T (fold deliver_nmi ds s)"
  using assms by (induction ds arbitrary: s) simp_all

lemma in_events_of: "(cpu, e) \<in> set tr \<Longrightarrow> e \<in> set (events_of cpu tr)"
  by (auto simp: events_of_def intro!: image_eqI [where x = "(cpu, e)"])

lemma deliveries_done [simp]:
  "crash_save_done s c \<Longrightarrow> crash_save_done (fold deliver_nmi ds s) c"
  by (rule deliveries_rule [where T = "\<lambda>s. crash_save_done s c"]) (simp_all add: deliver_nmi_done)

lemma deliveries_trace_grows [simp]:
  "x \<in> set (trace s) \<Longrightarrow> x \<in> set (trace (fold deliver_nmi ds s))"
proof (rule deliveries_rule [where T = "\<lambda>s. x \<in> set (trace s)"])
  fix d and s :: crash_state
  assume "x \<in> set (trace s)"
  with deliver_nmi_trace [of d s] show "x \<in> set (trace (deliver_nmi d s))" by auto
qed

lemma later_done:
  assumes "crash_save_done (cur (shootdown_prepare env cpu r0)) c"
  shows "crash_save_done (cur (machine_crash_shutdown env cpu r0)) c"
  using assms
  by (rule after_prepare [where P = "\<lambda>r. crash_save_done (cur r) c", rotated 2]) simp_all

lemma later_trace:
  assumes "x \<in> set (trace (cur (shootdown_prepare env cpu r0)))"
  shows "x \<in> set (trace (cur (machine_crash_shutdown env cpu r0)))"
  using assms
proof (rule after_prepare [where P = "\<lambda>r. x \<in> set (trace (cur r))", rotated 2])
  fix r :: run and f :: "crash_state \<Rightarrow> crash_state"
  assume "x \<in> set (trace (cur r))"
    and "\<forall>s. waiting_to_crash (f s) = waiting_to_crash s \<and> crashing_cpu (f s) = crashing_cpu s
         \<and> crash_save_done (f s) = crash_save_done s
         \<and> (trace (f s) = trace s
              \<or> (\<exists>e. e \<noteq> Kexec_crash_save_cpu \<and> e \<noteq> Stac \<and> trace (f s) = trace s @ [(cpu, e)]))"
  then have "x \<in> set (trace (f (cur r)))" by (metis Un_iff set_append)
  then show "x \<in> set (trace (cur (exec env f r)))" by simp
qed simp

lemma in_states_exec: "x \<in> set (states r) \<Longrightarrow> x \<in> set (states (exec env f r))"
  using states_exec_mono [of f r env] by blast

lemma in_states_interleave: "x \<in> set (states r) \<Longrightarrow> x \<in> set (states (interleave env r))"
  using states_interleave_mono [of r env] by blast

lemma in_states_local: "x \<in> set (states r) \<Longrightarrow> x \<in> set (states (shootdown_local env cpu r))"
  unfolding shootdown_local_def Let_def
  by (simp add: in_states_exec)

lemma in_states_machine_crash_shutdown:
  "x \<in> set (states (nmi_shootdown_cpus env cpu r)) \<Longrightarrow>
   x \<in> set (states (machine_crash_shutdown env cpu r))"
  unfolding machine_crash_shutdown_def Let_def
  by (intro in_states_exec)

lemma tick_nmi_shootdown_cpus: "tick r + 9 \<le> tick (nmi_shootdown_cpus env cpu r)"
proof -
  let ?r1 = "shootdown_prepare env cpu r"
  let ?r2 = "snd (poll_waiting_to_crash env cpu 1000 ?r1)"
  have "tick ?r1 \<le> tick ?r2"
    by (rule poll_rule [where P = "\<lambda>m r'. tick ?r1 \<le> tick r'"]) simp_all
  moreover have "tick ?r2 \<le> tick (shootdown_report env cpu ?r2)"
    by (simp add: shootdown_report_def Let_def)
  moreover have "tick r' \<le> tick (shootdown_local env cpu r')" for r'
    by (simp add: shootdown_local_def Let_def)
  ultimately show ?thesis
    unfolding nmi_shootdown_cpus_unfold
    by (metis (no_types, lifting) add.commute le_trans prepare_fields(6))
qed

lemma states_exec_quiet:
  "nmi_arrivals env (tick r) = [] \<Longrightarrow> states (exec env f r) = f (cur r) # states r"
  by (simp add: exec_def interleave_def)

lemma prepare_all_respond_saved:
  "(1, Kexec_crash_save_cpu) \<in> set (trace (cur (shootdown_prepare env_all_respond 0 boot_run)))"
  "crash_save_done (cur (shootdown_prepare env_all_respond 0 boot_run)) 1"
  by (simp_all add: shootdown_prepare_def env_all_respond_def boot_run_def boot_state_def nmi_on_def
      call_defs handler_defs emit_def)

lemma prepare_cpu2_hangs:
  "waiting_to_crash (cur (shootdown_prepare env_cpu2_hangs 0 boot_run)) = {2}"
  by (simp add: shootdown_prepare_def env_cpu2_hangs_def boot_run_def boot_state_def nmi_on_def
      call_defs handler_defs emit_def icr_busy_wait.simps) auto

subsection \<open>What is in place when the NMI is sent\<close>

lemma deliver_nmi_mc_ist:
  assumes "nmi_callback s \<noteq> Do_nmi_crash \<or> idt_nmi s cpu = Trap_nop"
  shows "idt_mc_ist (deliver_nmi d s) cpu = idt_mc_ist s cpu"
proof (cases "nmi_cpu d = cpu")
  case True
  with assms show ?thesis by (simp add: deliver_nmi_quiet)
next
  case False
  then show ?thesis
    by (auto simp: handler_defs call_defs split: apic_mode.splits option.splits)
qed

lemma deliveries_mc_ist [simp]:
  "idt_nmi s cpu = Trap_nop \<Longrightarrow> idt_mc_ist (fold deliver_nmi ds s) cpu = idt_mc_ist s cpu"
  by (induction ds arbitrary: s) (simp_all add: deliver_nmi_mc_ist)

text \<open>The state in which \<^verbatim>\<open>smp_send_nmi_allbutself\<close> has just been called.\<close>
lemma prepare_sends:
  assumes "nmi_callback (cur r0) \<noteq> Do_nmi_crash"
  shows "\<exists>s\<in>set (states (shootdown_prepare env cpu r0)).
           (\<exists>tr. trace s = tr @ [(cpu, Smp_send_nmi_allbutself)])
           \<and> idt_nmi s cpu = Trap_nop \<and> idt_mc_ist s cpu = IST_NONE
           \<and> nmi_callback s = Do_nmi_crash"
proof -
  define r8 where "r8 =
    exec env (set_nmi_callback cpu Do_nmi_crash)
     (exec env (set_ist_MC cpu IST_NONE)
      (exec env (set_gate_lower_NMI cpu Trap_nop)
       (exec env (\<lambda>s. s\<lparr>waiting_to_crash := cpu_online_map s - {cpu}\<rparr>)
        (exec env (\<lambda>s. s\<lparr>local_irq_count := (local_irq_count s)(crashing_cpu s := 0)\<rparr>)
         (exec env (\<lambda>s. s\<lparr>crashing_cpu := cpu\<rparr>)
          (exec env (emit cpu Local_irq_disable)
           (exec env (emit cpu Disable_lapic_nmi_watchdog) r0)))))))"
  define s where "s = emit cpu Smp_send_nmi_allbutself (cur r8)"
  have p: "shootdown_prepare env cpu r0 = exec env (emit cpu Smp_send_nmi_allbutself) r8"
    by (simp add: shootdown_prepare_def r8_def)
  have "s \<in> set (states (shootdown_prepare env cpu r0))"
    unfolding p s_def
    using states_exec_mono [of "emit cpu Smp_send_nmi_allbutself" r8 env] by simp
  moreover have "\<exists>tr. trace s = tr @ [(cpu, Smp_send_nmi_allbutself)]"
    by (simp add: s_def)
  moreover have "idt_nmi s cpu = Trap_nop" "nmi_callback s = Do_nmi_crash"
    by (simp_all add: s_def r8_def call_defs)
  moreover have "idt_mc_ist s cpu = IST_NONE"
    using assms by (simp add: s_def r8_def call_defs deliveries_quiet)
  ultimately show ?thesis by blast
qed

text \<open>
  Claim C9.  Whatever the other processors do, the calls of the coordinating processor begin
  with the rebinding of its NMI vector to \<^verbatim>\<open>trap_nop\<close>, the removal of the dedicated stack
  of its machine-check vector and the registration of \<^verbatim>\<open>do_nmi_crash\<close>, in this order, and
  only then comes \<^verbatim>\<open>smp_send_nmi_allbutself\<close>, which is not called a second time.  In
  the state in which the NMI has just been sent, the NMI gate of the coordinating processor
  is \<^verbatim>\<open>trap_nop\<close>, its machine-check entry has no dedicated stack and the callback is
  \<^verbatim>\<open>do_nmi_crash\<close>.
\<close>
theorem vectors_and_callback_before_broadcast:
  assumes "nmi_callback (cur r0) \<noteq> Do_nmi_crash"
  shows "(\<exists>rest. events_of cpu (trace (cur (machine_crash_shutdown env cpu r0))) =
           events_of cpu (trace (cur r0)) @
           [Disable_lapic_nmi_watchdog, Local_irq_disable, Set_gate_lower_NMI Trap_nop,
            Set_ist_MC IST_NONE, Set_nmi_callback Do_nmi_crash, Smp_send_nmi_allbutself] @ rest
         \<and> Smp_send_nmi_allbutself \<notin> set rest)
    \<and> (\<exists>s\<in>set (states (machine_crash_shutdown env cpu r0)).
           (\<exists>tr. trace s = tr @ [(cpu, Smp_send_nmi_allbutself)])
           \<and> idt_nmi s cpu = Trap_nop \<and> idt_mc_ist s cpu = IST_NONE
           \<and> nmi_callback s = Do_nmi_crash)"
proof -
  have a: "\<exists>rest. events_of cpu (trace (cur (machine_crash_shutdown env cpu r0))) =
           events_of cpu (trace (cur r0)) @
           [Disable_lapic_nmi_watchdog, Local_irq_disable, Set_gate_lower_NMI Trap_nop,
            Set_ist_MC IST_NONE, Set_nmi_callback Do_nmi_crash, Smp_send_nmi_allbutself] @ rest
         \<and> Smp_send_nmi_allbutself \<notin> set rest"
    using assms
    by (simp add: machine_crash_shutdown_events nmi_shootdown_cpus_unfold
        local_events report_events poll_events prepare_events)
  from prepare_sends [OF assms, of env cpu]
  obtain s where s: "s \<in> set (states (shootdown_prepare env cpu r0))"
    and props: "(\<exists>tr. trace s = tr @ [(cpu, Smp_send_nmi_allbutself)])
           \<and> idt_nmi s cpu = Trap_nop \<and> idt_mc_ist s cpu = IST_NONE
           \<and> nmi_callback s = Do_nmi_crash"
    by blast
  from s have "s \<in> set (states (machine_crash_shutdown env cpu r0))"
    by (rule after_prepare [rotated 2]) (rule in_states_exec, assumption, rule in_states_interleave)
  with props have b: "\<exists>s\<in>set (states (machine_crash_shutdown env cpu r0)).
           (\<exists>tr. trace s = tr @ [(cpu, Smp_send_nmi_allbutself)])
           \<and> idt_nmi s cpu = Trap_nop \<and> idt_mc_ist s cpu = IST_NONE
           \<and> nmi_callback s = Do_nmi_crash"
    by (rule rev_bexI [rotated])
  show ?thesis by (intro conjI a b)
qed

theorem vectors_and_callback_before_broadcast_witness:
  "nmi_callback (cur boot_run) \<noteq> Do_nmi_crash
   \<and> (\<exists>rest. events_of 0 (trace (cur (machine_crash_shutdown env_cpu2_hangs 0 boot_run))) =
           [Disable_lapic_nmi_watchdog, Local_irq_disable, Set_gate_lower_NMI Trap_nop,
            Set_ist_MC IST_NONE, Set_nmi_callback Do_nmi_crash, Smp_send_nmi_allbutself] @ rest
         \<and> Smp_send_nmi_allbutself \<notin> set rest)"
proof -
  have h: "nmi_callback (cur boot_run) \<noteq> Do_nmi_crash" and b: "trace (cur boot_run) = []"
    by (simp_all add: boot_run_def boot_state_def)
  from vectors_and_callback_before_broadcast [OF h, of 0 env_cpu2_hangs]
  have "\<exists>rest. events_of 0 (trace (cur (machine_crash_shutdown env_cpu2_hangs 0 boot_run))) =
           events_of 0 (trace (cur boot_run)) @
           [Disable_lapic_nmi_watchdog, Local_irq_disable, Set_gate_lower_NMI Trap_nop,
            Set_ist_MC IST_NONE, Set_nmi_callback Do_nmi_crash, Smp_send_nmi_allbutself] @ rest
         \<and> Smp_send_nmi_allbutself \<notin> set rest" ..
  with b have "\<exists>rest. events_of 0 (trace (cur (machine_crash_shutdown env_cpu2_hangs 0 boot_run))) =
           [Disable_lapic_nmi_watchdog, Local_irq_disable, Set_gate_lower_NMI Trap_nop,
            Set_ist_MC IST_NONE, Set_nmi_callback Do_nmi_crash, Smp_send_nmi_allbutself] @ rest
         \<and> Smp_send_nmi_allbutself \<notin> set rest"
    by simp
  with h show ?thesis ..
qed

subsection \<open>The crashing processor is never waited for\<close>

lemma deliveries_not_waiting [simp]:
  "c \<notin> waiting_to_crash s \<Longrightarrow> c \<notin> waiting_to_crash (fold deliver_nmi ds s)"
  using deliveries_waiting [of ds s] by auto

lemma exec_coordinator_out:
  assumes "\<forall>s\<in>set (states r). crashing_cpu s \<notin> waiting_to_crash s"
    and "crashing_cpu (f (cur r)) \<notin> waiting_to_crash (f (cur r))"
  shows "\<forall>s\<in>set (states (exec env f r)). crashing_cpu s \<notin> waiting_to_crash s"
proof (rule exec_all [where I = "\<lambda>s. crashing_cpu s \<notin> waiting_to_crash s"])
  show "\<forall>s\<in>set (states r). crashing_cpu s \<notin> waiting_to_crash s" by (rule assms(1))
next
  show "crashing_cpu (f (cur r)) \<notin> waiting_to_crash (f (cur r))" by (rule assms(2))
next
  fix d and s :: crash_state
  assume "crashing_cpu s \<notin> waiting_to_crash s"
  with deliver_nmi_waiting [of d s]
  show "crashing_cpu (deliver_nmi d s) \<notin> waiting_to_crash (deliver_nmi d s)" by auto
qed

lemma interleave_coordinator_out:
  assumes "\<forall>s\<in>set (states r). crashing_cpu s \<notin> waiting_to_crash s"
  shows "\<forall>s\<in>set (states (interleave env r)). crashing_cpu s \<notin> waiting_to_crash s"
proof (rule interleave_all [where I = "\<lambda>s. crashing_cpu s \<notin> waiting_to_crash s"])
  show "\<forall>s\<in>set (states r). crashing_cpu s \<notin> waiting_to_crash s" by (rule assms)
next
  fix d and s :: crash_state
  assume "crashing_cpu s \<notin> waiting_to_crash s"
  with deliver_nmi_waiting [of d s]
  show "crashing_cpu (deliver_nmi d s) \<notin> waiting_to_crash (deliver_nmi d s)" by auto
qed

lemma prepare_coordinator_out:
  assumes "\<forall>s\<in>set (states r0). crashing_cpu s \<notin> waiting_to_crash s"
    and "waiting_to_crash (cur r0) = {}"
  shows "\<forall>s\<in>set (states (shootdown_prepare env cpu r0)). crashing_cpu s \<notin> waiting_to_crash s"
  unfolding shootdown_prepare_def Let_def
  by (intro exec_coordinator_out assms(1)) (simp_all add: call_defs assms(2))

text \<open>The state right after line 131.\<close>
lemma prepare_initialises:
  "\<exists>s\<in>set (states (shootdown_prepare env cpu r0)).
     waiting_to_crash s = cpu_online_map s - {cpu} \<and> crashing_cpu s = cpu"
proof -
  define r4 where "r4 =
    exec env (\<lambda>s. s\<lparr>local_irq_count := (local_irq_count s)(crashing_cpu s := 0)\<rparr>)
      (exec env (\<lambda>s. s\<lparr>crashing_cpu := cpu\<rparr>)
        (exec env (emit cpu Local_irq_disable) (exec env (emit cpu Disable_lapic_nmi_watchdog) r0)))"
  define s5 where "s5 = (cur r4)\<lparr>waiting_to_crash := cpu_online_map (cur r4) - {cpu}\<rparr>"
  define r5 where "r5 = exec env (\<lambda>s. s\<lparr>waiting_to_crash := cpu_online_map s - {cpu}\<rparr>) r4"
  have "s5 \<in> set (states r5)"
    unfolding r5_def s5_def
    using states_exec_mono [of "\<lambda>s. s\<lparr>waiting_to_crash := cpu_online_map s - {cpu}\<rparr>" r4 env]
    by simp
  then have "s5 \<in> set (states (shootdown_prepare env cpu r0))"
    unfolding shootdown_prepare_def Let_def r5_def [symmetric] r4_def [symmetric]
    by (intro in_states_exec)
  moreover have "waiting_to_crash s5 = cpu_online_map s5 - {cpu} \<and> crashing_cpu s5 = cpu"
    by (simp add: s5_def r4_def)
  ultimately show ?thesis by blast
qed

text \<open>
  Claim C5.  \<^verbatim>\<open>machine_crash_shutdown\<close> starts with \<^verbatim>\<open>waiting_to_crash\<close> empty, as the
  loader leaves it.  In every state the sequence passes through, statement by statement and
  NMI by NMI, \<^verbatim>\<open>crashing_cpu\<close> is not a member of \<^verbatim>\<open>waiting_to_crash\<close>.  One of these states
  is the one right after line 131, where the mask is the online map without the
  coordinating processor.  The handler changes the mask only by removing its own processor,
  on a first entry and never on the crashing processor, and does not write \<^verbatim>\<open>crashing_cpu\<close>.
\<close>
theorem coordinator_never_waiting:
  assumes "waiting_to_crash (cur r0) = {}" and "past r0 = []"
  shows "(\<forall>s\<in>set (states (machine_crash_shutdown env cpu r0)). crashing_cpu s \<notin> waiting_to_crash s)
    \<and> (\<exists>s\<in>set (states (machine_crash_shutdown env cpu r0)).
          waiting_to_crash s = cpu_online_map s - {cpu} \<and> crashing_cpu s = cpu)
    \<and> waiting_to_crash (state_of (do_nmi_crash d s)) =
        (if nmi_cpu d \<noteq> crashing_cpu s \<and> \<not> crash_save_done s (nmi_cpu d)
         then waiting_to_crash s - {nmi_cpu d} else waiting_to_crash s)
    \<and> crashing_cpu (state_of (do_nmi_crash d s)) = crashing_cpu s"
proof -
  have "\<forall>s\<in>set (states r0). crashing_cpu s \<notin> waiting_to_crash s"
    using assms by (simp add: states_def)
  from prepare_coordinator_out [OF this assms(1)]
  have "\<forall>s\<in>set (states (shootdown_prepare env cpu r0)). crashing_cpu s \<notin> waiting_to_crash s" .
  then have a: "\<forall>s\<in>set (states (machine_crash_shutdown env cpu r0)). crashing_cpu s \<notin> waiting_to_crash s"
  proof (rule after_prepare [rotated 2])
    fix r :: run and f :: "crash_state \<Rightarrow> crash_state"
    assume inv: "\<forall>s\<in>set (states r). crashing_cpu s \<notin> waiting_to_crash s"
      and keep: "\<forall>s. waiting_to_crash (f s) = waiting_to_crash s \<and> crashing_cpu (f s) = crashing_cpu s
         \<and> crash_save_done (f s) = crash_save_done s
         \<and> (trace (f s) = trace s
              \<or> (\<exists>e. e \<noteq> Kexec_crash_save_cpu \<and> e \<noteq> Stac \<and> trace (f s) = trace s @ [(cpu, e)]))"
    from inv have "crashing_cpu (cur r) \<notin> waiting_to_crash (cur r)" by simp
    with keep have "crashing_cpu (f (cur r)) \<notin> waiting_to_crash (f (cur r))" by simp
    with inv show "\<forall>s\<in>set (states (exec env f r)). crashing_cpu s \<notin> waiting_to_crash s"
      by (rule exec_coordinator_out)
  next
    fix r :: run
    assume "\<forall>s\<in>set (states r). crashing_cpu s \<notin> waiting_to_crash s"
    then show "\<forall>s\<in>set (states (interleave env r)). crashing_cpu s \<notin> waiting_to_crash s"
      by (rule interleave_coordinator_out)
  qed
  obtain s5 where s5_in: "s5 \<in> set (states (shootdown_prepare env cpu r0))"
    and s5: "waiting_to_crash s5 = cpu_online_map s5 - {cpu} \<and> crashing_cpu s5 = cpu"
    using prepare_initialises by blast
  from s5_in have "s5 \<in> set (states (machine_crash_shutdown env cpu r0))"
    by (rule after_prepare [rotated 2]) (rule in_states_exec, assumption, rule in_states_interleave)
  with s5 have b: "\<exists>s\<in>set (states (machine_crash_shutdown env cpu r0)).
          waiting_to_crash s = cpu_online_map s - {cpu} \<and> crashing_cpu s = cpu"
    by blast
  have c: "waiting_to_crash (state_of (do_nmi_crash d s)) =
        (if nmi_cpu d \<noteq> crashing_cpu s \<and> \<not> crash_save_done s (nmi_cpu d)
         then waiting_to_crash s - {nmi_cpu d} else waiting_to_crash s)"
    "crashing_cpu (state_of (do_nmi_crash d s)) = crashing_cpu s"
    by (auto simp: handler_defs call_defs split: apic_mode.splits option.splits)
  show ?thesis by (intro conjI a b c)
qed

theorem coordinator_never_waiting_witness:
  "waiting_to_crash (cur boot_run) = {} \<and> past boot_run = []
   \<and> crashing_cpu (cur (machine_crash_shutdown env_cpu2_hangs 0 boot_run))
       \<notin> waiting_to_crash (cur (machine_crash_shutdown env_cpu2_hangs 0 boot_run))
   \<and> waiting_to_crash (state_of (do_nmi_crash (nmi_on APIC_MODE_X2APIC 0) boot_state)) = {}
   \<and> waiting_to_crash (state_of (do_nmi_crash (nmi_on APIC_MODE_X2APIC 1)
        (boot_state\<lparr>waiting_to_crash := {1, 2, 3}\<rparr>))) = {2, 3}"
proof -
  have h1: "waiting_to_crash (cur boot_run) = {}" and h2: "past boot_run = []"
    by (simp_all add: boot_run_def boot_state_def)
  note t = coordinator_never_waiting [OF h1 h2]
  from t [of env_cpu2_hangs 0]
  have "\<forall>s\<in>set (states (machine_crash_shutdown env_cpu2_hangs 0 boot_run)).
      crashing_cpu s \<notin> waiting_to_crash s"
    by blast
  then have a: "crashing_cpu (cur (machine_crash_shutdown env_cpu2_hangs 0 boot_run))
       \<notin> waiting_to_crash (cur (machine_crash_shutdown env_cpu2_hangs 0 boot_run))"
    by simp
  let ?d0 = "nmi_on APIC_MODE_X2APIC 0" and ?d1 = "nmi_on APIC_MODE_X2APIC 1"
  let ?s1 = "boot_state\<lparr>waiting_to_crash := {1, 2, 3}\<rparr>"
  from t [of env_cpu2_hangs 0 ?d0 boot_state]
  have "waiting_to_crash (state_of (do_nmi_crash ?d0 boot_state)) =
        (if nmi_cpu ?d0 \<noteq> crashing_cpu boot_state \<and> \<not> crash_save_done boot_state (nmi_cpu ?d0)
         then waiting_to_crash boot_state - {nmi_cpu ?d0} else waiting_to_crash boot_state)"
    by blast
  then have b: "waiting_to_crash (state_of (do_nmi_crash ?d0 boot_state)) = {}"
    by (simp add: nmi_on_def boot_state_def)
  from t [of env_cpu2_hangs 0 ?d1 ?s1]
  have "waiting_to_crash (state_of (do_nmi_crash ?d1 ?s1)) =
        (if nmi_cpu ?d1 \<noteq> crashing_cpu ?s1 \<and> \<not> crash_save_done ?s1 (nmi_cpu ?d1)
         then waiting_to_crash ?s1 - {nmi_cpu ?d1} else waiting_to_crash ?s1)"
    by blast
  then have c: "waiting_to_crash (state_of (do_nmi_crash ?d1 ?s1)) = {2, 3}"
    by (simp add: nmi_on_def boot_state_def)
  show ?thesis by (intro conjI h1 h2 a b c)
qed

subsection \<open>A flag that is set stays set\<close>

lemma exec_done_chain:
  assumes "sorted_wrt (\<lambda>new old. crash_save_done old c \<longrightarrow> crash_save_done new c) (states r)"
    and "crash_save_done (f (cur r)) = crash_save_done (cur r)"
  shows "sorted_wrt (\<lambda>new old. crash_save_done old c \<longrightarrow> crash_save_done new c) (states (exec env f r))"
  by (rule exec_chain [where R = "\<lambda>old new. crash_save_done old c \<longrightarrow> crash_save_done new c", OF assms(1)])
     (simp_all add: deliver_nmi_done assms(2))

lemma interleave_done_chain:
  assumes "sorted_wrt (\<lambda>new old. crash_save_done old c \<longrightarrow> crash_save_done new c) (states r)"
  shows "sorted_wrt (\<lambda>new old. crash_save_done old c \<longrightarrow> crash_save_done new c) (states (interleave env r))"
  by (rule interleave_chain [where R = "\<lambda>old new. crash_save_done old c \<longrightarrow> crash_save_done new c", OF assms])
     (simp_all add: deliver_nmi_done)

lemma prepare_done_chain:
  assumes "sorted_wrt (\<lambda>new old. crash_save_done old c \<longrightarrow> crash_save_done new c) (states r0)"
  shows "sorted_wrt (\<lambda>new old. crash_save_done old c \<longrightarrow> crash_save_done new c)
           (states (shootdown_prepare env cpu r0))"
  unfolding shootdown_prepare_def Let_def
  by (intro exec_done_chain assms) (simp_all add: call_defs)

text \<open>
  Claim C4.  \<open>states\<close> lists the states of the sequence with the most recent first, so a
  larger index is an earlier state.  A flag \<^verbatim>\<open>crash_save_done\<close> that is true in some state is
  true in every later one: it is never reset, and so changes at most once, from false to
  true.  The only writer is the handler, which sets the flag of its own processor to true.
\<close>
theorem crash_save_done_never_reset:
  assumes "past r0 = []"
  shows "(\<forall>i j. i \<le> j \<and> j < length (states (machine_crash_shutdown env cpu r0))
            \<and> crash_save_done (states (machine_crash_shutdown env cpu r0) ! j) c
          \<longrightarrow> crash_save_done (states (machine_crash_shutdown env cpu r0) ! i) c)
    \<and> crash_save_done (state_of (do_nmi_crash d s)) =
        (if nmi_cpu d \<noteq> crashing_cpu s then (crash_save_done s)(nmi_cpu d := True)
         else crash_save_done s)"
proof -
  let ?R = "machine_crash_shutdown env cpu r0"
  let ?P = "\<lambda>new old. crash_save_done old c \<longrightarrow> crash_save_done new c"
  have "sorted_wrt ?P (states r0)"
    using assms by (simp add: states_def)
  then have "sorted_wrt ?P (states (shootdown_prepare env cpu r0))"
    by (rule prepare_done_chain)
  then have sorted: "sorted_wrt ?P (states ?R)"
  proof (rule after_prepare [rotated 2])
    fix r :: run and f :: "crash_state \<Rightarrow> crash_state"
    assume inv: "sorted_wrt ?P (states r)"
      and keep: "\<forall>s. waiting_to_crash (f s) = waiting_to_crash s \<and> crashing_cpu (f s) = crashing_cpu s
         \<and> crash_save_done (f s) = crash_save_done s
         \<and> (trace (f s) = trace s
              \<or> (\<exists>e. e \<noteq> Kexec_crash_save_cpu \<and> e \<noteq> Stac \<and> trace (f s) = trace s @ [(cpu, e)]))"
    from keep have "crash_save_done (f (cur r)) = crash_save_done (cur r)" by simp
    with inv show "sorted_wrt ?P (states (exec env f r))"
      by (rule exec_done_chain)
  next
    fix r :: run
    assume "sorted_wrt ?P (states r)"
    then show "sorted_wrt ?P (states (interleave env r))"
      by (rule interleave_done_chain)
  qed
  have a: "crash_save_done (states ?R ! i) c"
    if "i \<le> j" "j < length (states ?R)" "crash_save_done (states ?R ! j) c" for i j
  proof (cases "i = j")
    case True
    with that show ?thesis by simp
  next
    case False
    with that have "i < j" by simp
    with sorted that(2) have "?P (states ?R ! i) (states ?R ! j)"
      by (simp add: sorted_wrt_iff_nth_less)
    with that show ?thesis by simp
  qed
  have b: "crash_save_done (state_of (do_nmi_crash d s)) =
        (if nmi_cpu d \<noteq> crashing_cpu s then (crash_save_done s)(nmi_cpu d := True)
         else crash_save_done s)"
    by (auto simp: handler_defs call_defs fun_upd_idem split: apic_mode.splits option.splits)
  from a b show ?thesis by blast
qed

theorem crash_save_done_never_reset_witness:
  "past boot_run = [] \<and> (0::nat) \<le> 1
   \<and> 1 < length (states (machine_crash_shutdown env_all_respond 0 boot_run))
   \<and> crash_save_done (states (machine_crash_shutdown env_all_respond 0 boot_run) ! 1) 1
   \<and> crash_save_done (states (machine_crash_shutdown env_all_respond 0 boot_run) ! 0) 1"
proof -
  let ?env = env_all_respond
  let ?R = "machine_crash_shutdown ?env 0 boot_run"
  let ?N = "nmi_shootdown_cpus ?env 0 boot_run"
  let ?R1 = "exec ?env (emit 0 Kexec_crash_save_info) ?N"
  let ?f2 = "\<lambda>s. s\<lparr>info_xen_phys_start := Some (xen_phys_start s)\<rparr>"
  let ?R2 = "exec ?env ?f2 ?R1"
  let ?f3 = "\<lambda>s. s\<lparr>info_dom0_pfn_to_mfn_frame_list_list := Some (dom0_frame_list_list s)\<rparr>"
  have h: "past boot_run = []" by (simp add: boot_run_def)
  have "9 \<le> tick ?N" using tick_nmi_shootdown_cpus [of boot_run ?env 0] by simp
  then have q: "nmi_arrivals ?env (tick ?N) = []" "nmi_arrivals ?env (Suc (tick ?N)) = []"
    "nmi_arrivals ?env (Suc (Suc (tick ?N))) = []"
    by (simp_all add: env_all_respond_def)
  have R: "?R = exec ?env ?f3 ?R2"
    by (simp add: machine_crash_shutdown_def)
  have st: "states ?R = ?f3 (cur ?R2) # ?f2 (cur ?R1) # states ?R1"
    unfolding R by (simp add: states_exec_quiet q)
  have len: "1 < length (states ?R)" unfolding st by simp
  have "crash_save_done (cur ?N) 1"
  proof -
    have "crash_save_done (cur ?R) 1"
      by (rule later_done) (rule prepare_all_respond_saved)
    then show ?thesis unfolding R by (simp add: q)
  qed
  then have one: "crash_save_done (states ?R ! 1) 1"
    unfolding st by (simp add: q)
  from crash_save_done_never_reset [OF h, of ?env 0 1] len one
  have zero: "crash_save_done (states ?R ! 0) 1"
    by (meson zero_le_one)
  show ?thesis by (intro conjI h len one zero) simp
qed

subsection \<open>Who calls \<^verbatim>\<open>kexec_crash_save_cpu\<close>\<close>

lemma coordinator_events:
  assumes "nmi_callback (cur r0) \<noteq> Do_nmi_crash"
  shows "\<exists>evs. events_of cpu (trace (cur (machine_crash_shutdown env cpu r0))) =
           events_of cpu (trace (cur r0)) @ evs
         \<and> Kexec_crash_save_cpu \<notin> set evs \<and> Stac \<notin> set evs"
  using assms
  by (simp add: machine_crash_shutdown_events nmi_shootdown_cpus_unfold
      local_events report_events poll_events prepare_events)

text \<open>
  Claim C10.  Among the calls added to the trace by \<^verbatim>\<open>machine_crash_shutdown\<close> and by the
  NMIs taken meanwhile, every \<^verbatim>\<open>kexec_crash_save_cpu\<close> is made by a processor other than the
  coordinating one, and by one that took an NMI: the call comes from \<^verbatim>\<open>do_nmi_crash\<close> only.
  The coordinating processor never enters the handler (its first call, \<^verbatim>\<open>stac\<close>, is never
  made there), so the assertion at line 47 holds.
\<close>
theorem crash_save_only_in_handler:
  assumes "nmi_callback (cur r0) \<noteq> Do_nmi_crash"
  shows "\<exists>new. trace (cur (machine_crash_shutdown env cpu r0)) = trace (cur r0) @ new
     \<and> (\<forall>c. (c, Kexec_crash_save_cpu) \<in> set new \<longrightarrow>
           c \<noteq> cpu \<and> (\<exists>t. \<exists>d\<in>set (nmi_arrivals env t). nmi_cpu d = c))
     \<and> (cpu, Stac) \<notin> set new"
proof -
  let ?R = "machine_crash_shutdown env cpu r0"
  define took where "took c = (\<exists>t. \<exists>d\<in>set (nmi_arrivals env t). nmi_cpu d = c)" for c
  define T where "T s = (\<exists>new. trace s = trace (cur r0) @ new
     \<and> (\<forall>c e. (c, e) \<in> set new \<longrightarrow> e = Kexec_crash_save_cpu \<or> e = Stac \<longrightarrow> took c))"
    for s :: crash_state
  have T_stmt: "T (f s)"
    if "T s" and "trace (f s) = trace s
      \<or> (\<exists>e. e \<noteq> Kexec_crash_save_cpu \<and> e \<noteq> Stac \<and> trace (f s) = trace s @ [(cpu, e)])"
    for f s
  proof -
    from that(1) obtain new where new: "trace s = trace (cur r0) @ new"
      "\<forall>c e. (c, e) \<in> set new \<longrightarrow> e = Kexec_crash_save_cpu \<or> e = Stac \<longrightarrow> took c"
      unfolding T_def by blast
    from that(2) show ?thesis
    proof
      assume "trace (f s) = trace s"
      with new show ?thesis unfolding T_def by auto
    next
      assume "\<exists>e. e \<noteq> Kexec_crash_save_cpu \<and> e \<noteq> Stac \<and> trace (f s) = trace s @ [(cpu, e)]"
      then obtain e where e: "e \<noteq> Kexec_crash_save_cpu" "e \<noteq> Stac"
        "trace (f s) = trace s @ [(cpu, e)]" by blast
      with new have "trace (f s) = trace (cur r0) @ (new @ [(cpu, e)])" by simp
      moreover from new(2) e have "\<forall>c e'. (c, e') \<in> set (new @ [(cpu, e)]) \<longrightarrow>
          e' = Kexec_crash_save_cpu \<or> e' = Stac \<longrightarrow> took c" by auto
      ultimately show ?thesis unfolding T_def by blast
    qed
  qed
  have T_nmi: "T (deliver_nmi d s)" if "d \<in> set (nmi_arrivals env t)" and "T s" for d t s
  proof -
    from that(2) obtain new where new: "trace s = trace (cur r0) @ new"
      "\<forall>c e. (c, e) \<in> set new \<longrightarrow> e = Kexec_crash_save_cpu \<or> e = Stac \<longrightarrow> took c"
      unfolding T_def by blast
    obtain evs where evs: "trace (deliver_nmi d s) = trace s @ map (Pair (nmi_cpu d)) evs"
      using deliver_nmi_trace [of d s] by blast
    from that(1) have "took (nmi_cpu d)" unfolding took_def by blast
    with new(2) have "\<forall>c e. (c, e) \<in> set (new @ map (Pair (nmi_cpu d)) evs) \<longrightarrow>
          e = Kexec_crash_save_cpu \<or> e = Stac \<longrightarrow> took c" by auto
    moreover from new(1) evs
    have "trace (deliver_nmi d s) = trace (cur r0) @ (new @ map (Pair (nmi_cpu d)) evs)" by simp
    ultimately show ?thesis unfolding T_def by blast
  qed
  have T_exec: "T (cur (exec env f r))"
    if "T (cur r)" and "\<forall>s. trace (f s) = trace s
      \<or> (\<exists>e. e \<noteq> Kexec_crash_save_cpu \<and> e \<noteq> Stac \<and> trace (f s) = trace s @ [(cpu, e)])"
    for f r
  proof -
    from that have "T (f (cur r))" by (intro T_stmt [where f = f and s = "cur r"]) auto
    then show ?thesis
      unfolding cur_exec by (rule deliveries_rule [where T = T]) (rule T_nmi)
  qed
  have T_point: "T (cur (interleave env r))" if "T (cur r)" for r
    unfolding cur_interleave using that by (rule deliveries_rule [where T = T]) (rule T_nmi)
  have "T (cur r0)" unfolding T_def by simp
  then have "T (cur (shootdown_prepare env cpu r0))"
    by (rule through_prepare [where P = "\<lambda>r. T (cur r)", rotated 1]) (rule T_exec, auto)
  then have "T (cur ?R)"
    by (rule after_prepare [where P = "\<lambda>r. T (cur r)", rotated 2])
       (rule T_exec, assumption, blast, rule T_point)
  then obtain new where new: "trace (cur ?R) = trace (cur r0) @ new"
    "\<forall>c e. (c, e) \<in> set new \<longrightarrow> e = Kexec_crash_save_cpu \<or> e = Stac \<longrightarrow> took c"
    unfolding T_def by blast
  obtain evs where evs: "events_of cpu (trace (cur ?R)) = events_of cpu (trace (cur r0)) @ evs"
    "Kexec_crash_save_cpu \<notin> set evs" "Stac \<notin> set evs"
    using coordinator_events [OF assms] by blast
  from new(1) evs(1) have "events_of cpu new = evs" by simp
  with evs(2,3) in_events_of [of cpu _ new]
  have own: "(cpu, Kexec_crash_save_cpu) \<notin> set new" "(cpu, Stac) \<notin> set new" by blast+
  have "\<forall>c. (c, Kexec_crash_save_cpu) \<in> set new \<longrightarrow>
           c \<noteq> cpu \<and> (\<exists>t. \<exists>d\<in>set (nmi_arrivals env t). nmi_cpu d = c)"
    using new(2) own(1) unfolding took_def by blast
  with new(1) own(2) show ?thesis by blast
qed

theorem crash_save_only_in_handler_witness:
  "nmi_callback (cur boot_run) \<noteq> Do_nmi_crash
   \<and> (1, Kexec_crash_save_cpu) \<in> set (trace (cur (machine_crash_shutdown env_all_respond 0 boot_run)))
   \<and> (1::nat) \<noteq> 0
   \<and> (0, Kexec_crash_save_cpu) \<notin> set (trace (cur (machine_crash_shutdown env_all_respond 0 boot_run)))
   \<and> (0, Stac) \<notin> set (trace (cur (machine_crash_shutdown env_all_respond 0 boot_run)))"
proof -
  let ?R = "machine_crash_shutdown env_all_respond 0 boot_run"
  have h: "nmi_callback (cur boot_run) \<noteq> Do_nmi_crash" and b: "trace (cur boot_run) = []"
    by (simp_all add: boot_run_def boot_state_def)
  from crash_save_only_in_handler [OF h, of env_all_respond 0] b
  have a: "\<forall>c. (c, Kexec_crash_save_cpu) \<in> set (trace (cur ?R)) \<longrightarrow>
           c \<noteq> 0 \<and> (\<exists>t. \<exists>d\<in>set (nmi_arrivals env_all_respond t). nmi_cpu d = c)"
    and s: "(0, Stac) \<notin> set (trace (cur ?R))"
    by auto
  have m: "(1, Kexec_crash_save_cpu) \<in> set (trace (cur ?R))"
    by (rule later_trace) (rule prepare_all_respond_saved)
  from a have z: "(0, Kexec_crash_save_cpu) \<notin> set (trace (cur ?R))" by blast
  show ?thesis by (intro conjI h m z s) simp
qed

subsection \<open>Processors that never answer\<close>

lemma deliver_nmi_waiting_other:
  "nmi_cpu d \<noteq> c \<Longrightarrow> (c \<in> waiting_to_crash (deliver_nmi d s)) = (c \<in> waiting_to_crash s)"
  using deliver_nmi_waiting [of d s] by auto

lemma deliveries_waiting_other:
  "\<forall>d\<in>set ds. nmi_cpu d \<noteq> c \<Longrightarrow>
   (c \<in> waiting_to_crash (fold deliver_nmi ds s)) = (c \<in> waiting_to_crash s)"
  by (induction ds arbitrary: s) (simp_all add: deliver_nmi_waiting_other)

text \<open>
  Claim C6.  Let \<open>c\<close> be an online processor other than the coordinating one that never takes
  an NMI.  Then the loop runs its full thousand delays, and the report is the failure
  message with a set \<open>W\<close> that contains \<open>c\<close>; \<open>W\<close> is what \<^verbatim>\<open>waiting_to_crash\<close> holds in the
  state where the message is printed, and a subset of what was waited for after the
  broadcast.  After the report come \<^verbatim>\<open>iommu_crash_shutdown\<close>, the local shutdown when the
  coordinating processor is online, and \<^verbatim>\<open>kexec_crash_save_info\<close>, and both fields of the
  crash record are written.  No statement of the sequence has a failing branch: the
  functions return a run for every input.
\<close>
theorem stragglers_are_reported:
  assumes cb: "nmi_callback (cur r0) \<noteq> Do_nmi_crash"
    and on: "c \<in> cpu_online_map (cur r0)" and ne: "c \<noteq> cpu"
    and never: "\<forall>t. \<forall>d\<in>set (nmi_arrivals env t). nmi_cpu d \<noteq> c"
  shows "\<exists>W. c \<in> W \<and> W \<subseteq> waiting_to_crash (cur (shootdown_prepare env cpu r0))
    \<and> events_of cpu (trace (cur (machine_crash_shutdown env cpu r0))) =
        events_of cpu (trace (cur r0)) @
        [Disable_lapic_nmi_watchdog, Local_irq_disable, Set_gate_lower_NMI Trap_nop,
         Set_ist_MC IST_NONE, Set_nmi_callback Do_nmi_crash, Smp_send_nmi_allbutself] @
        replicate 1000 (Mdelay 1) @
        [Console_force_unlock, Printk (Failed_to_shoot_down_CPUs W), Iommu_crash_shutdown] @
        (if cpu \<in> cpu_online_map (cur r0) then
           [Stop_this_cpu, Pcidevs_trylock (pcidevs_lock_free env)] @
           (if pcidevs_lock_free env then [Pci_disable_msi_all, Pcidevs_unlock] else []) @
           [Disable_IO_APIC, Hpet_disable, Iommu_quiesce]
         else []) @
        [Kexec_crash_save_info]
    \<and> (\<exists>s\<in>set (states (machine_crash_shutdown env cpu r0)).
          waiting_to_crash s = W
          \<and> (\<exists>tr. trace s = tr @ [(cpu, Printk (Failed_to_shoot_down_CPUs W))]))
    \<and> info_xen_phys_start (cur (machine_crash_shutdown env cpu r0)) = Some (xen_phys_start (cur r0))
    \<and> info_dom0_pfn_to_mfn_frame_list_list (cur (machine_crash_shutdown env cpu r0)) =
        Some (dom0_frame_list_list (cur r0))"
proof -
  let ?r1 = "shootdown_prepare env cpu r0"
  let ?p = "poll_waiting_to_crash env cpu 1000 ?r1"
  let ?r2 = "snd ?p"
  let ?ra = "exec env (emit cpu Console_force_unlock) ?r2"
  let ?rb = "interleave env ?ra"
  let ?W = "waiting_to_crash (cur ?rb)"
  let ?f = "\<lambda>s. emit cpu (Printk (Failed_to_shoot_down_CPUs (waiting_to_crash s))) s"
  let ?rc = "exec env ?f ?rb"
  have keep: "(c \<in> waiting_to_crash (fold deliver_nmi (nmi_arrivals env t) s)) = (c \<in> waiting_to_crash s)"
    for t s
    by (rule deliveries_waiting_other) (use never in blast)
  have w1: "c \<in> waiting_to_crash (cur ?r1)"
    using cb on ne by (simp add: shootdown_prepare_def call_defs deliveries_quiet keep)
  have w2: "c \<in> waiting_to_crash (cur ?r2)"
  proof (rule poll_rule [where P = "\<lambda>m r. c \<in> waiting_to_crash (cur r)"])
    show "c \<in> waiting_to_crash (cur ?r1)" by (rule w1)
  next
    fix m and r :: run
    assume "c \<in> waiting_to_crash (cur r)"
    then show "c \<in> waiting_to_crash (cur (exec env (emit cpu (Mdelay 1)) r))"
      by (simp add: keep)
  qed
  with poll_exit [of env cpu 1000 ?r1] have zero: "fst ?p = 0" by auto
  have wa: "c \<in> waiting_to_crash (cur ?ra)" using w2 by (simp add: keep)
  then have wb: "c \<in> ?W" by (simp add: keep)
  have sub2: "waiting_to_crash (cur ?r2) \<subseteq> waiting_to_crash (cur ?r1)"
  proof (rule poll_rule [where P = "\<lambda>m r. waiting_to_crash (cur r) \<subseteq> waiting_to_crash (cur ?r1)"])
    show "waiting_to_crash (cur ?r1) \<subseteq> waiting_to_crash (cur ?r1)" by simp
  next
    fix m and r :: run
    assume a: "waiting_to_crash (cur r) \<subseteq> waiting_to_crash (cur ?r1)"
    have "waiting_to_crash (cur (exec env (emit cpu (Mdelay 1)) r)) \<subseteq> waiting_to_crash (cur r)"
      using deliveries_waiting [of "nmi_arrivals env (tick r)" "emit cpu (Mdelay 1) (cur r)"]
      by simp
    with a show "waiting_to_crash (cur (exec env (emit cpu (Mdelay 1)) r))
        \<subseteq> waiting_to_crash (cur ?r1)"
      by (rule order_trans [rotated])
  qed
  have "?W \<subseteq> waiting_to_crash (cur ?ra)"
    using deliveries_waiting [of "nmi_arrivals env (tick ?ra)" "cur ?ra"] by simp
  moreover have "waiting_to_crash (cur ?ra) \<subseteq> waiting_to_crash (cur ?r2)"
    using deliveries_waiting [of "nmi_arrivals env (tick ?r2)" "emit cpu Console_force_unlock (cur ?r2)"]
    by simp
  ultimately have "?W \<subseteq> waiting_to_crash (cur ?r2)" by (rule order_trans)
  with sub2 have sub: "?W \<subseteq> waiting_to_crash (cur ?r1)" by blast
  have ev: "events_of cpu (trace (cur (machine_crash_shutdown env cpu r0))) =
        events_of cpu (trace (cur r0)) @
        [Disable_lapic_nmi_watchdog, Local_irq_disable, Set_gate_lower_NMI Trap_nop,
         Set_ist_MC IST_NONE, Set_nmi_callback Do_nmi_crash, Smp_send_nmi_allbutself] @
        replicate 1000 (Mdelay 1) @
        [Console_force_unlock, Printk (Failed_to_shoot_down_CPUs ?W), Iommu_crash_shutdown] @
        (if cpu \<in> cpu_online_map (cur r0) then
           [Stop_this_cpu, Pcidevs_trylock (pcidevs_lock_free env)] @
           (if pcidevs_lock_free env then [Pci_disable_msi_all, Pcidevs_unlock] else []) @
           [Disable_IO_APIC, Hpet_disable, Iommu_quiesce]
         else []) @
        [Kexec_crash_save_info]"
  proof -
    from wa have nonempty: "waiting_to_crash (cur ?ra) \<noteq> {}" by blast
    have 1: "events_of cpu (trace (cur ?r1)) = events_of cpu (trace (cur r0)) @
        [Disable_lapic_nmi_watchdog, Local_irq_disable, Set_gate_lower_NMI Trap_nop,
         Set_ist_MC IST_NONE, Set_nmi_callback Do_nmi_crash, Smp_send_nmi_allbutself]"
      and o1: "(cpu \<in> cpu_online_map (cur ?r1)) = (cpu \<in> cpu_online_map (cur r0))"
      using cb by (rule prepare_events)+
    have m1: "idt_nmi (cur ?r1) cpu = Trap_nop" by simp
    from poll_events [OF m1, of env 1000] zero
    have 2: "events_of cpu (trace (cur ?r2)) = events_of cpu (trace (cur ?r1)) @ replicate 1000 (Mdelay 1)"
      and o2: "(cpu \<in> cpu_online_map (cur ?r2)) = (cpu \<in> cpu_online_map (cur ?r1))"
      by simp_all
    have m2: "idt_nmi (cur ?r2) cpu = Trap_nop" by simp
    note 3 = report_events [OF m2, of env]
    have m3: "idt_nmi (cur (shootdown_report env cpu ?r2)) cpu = Trap_nop" by simp
    note 4 = local_events [OF m3, of env]
    show ?thesis
      unfolding machine_crash_shutdown_events nmi_shootdown_cpus_unfold 4 3 2 1 o1 o2
      using nonempty by simp
  qed
  have report: "shootdown_report env cpu ?r2 = exec env (emit cpu Iommu_crash_shutdown) ?rc"
    using wa by (auto simp: shootdown_report_def Let_def)
  have "?f (cur ?rb) \<in> set (states ?rc)"
    using states_exec_mono [of ?f ?rb env] by simp
  then have "?f (cur ?rb) \<in> set (states (shootdown_report env cpu ?r2))"
    unfolding report by (rule in_states_exec)
  then have "?f (cur ?rb) \<in> set (states (nmi_shootdown_cpus env cpu r0))"
    unfolding nmi_shootdown_cpus_unfold by (rule in_states_local)
  then have st: "?f (cur ?rb) \<in> set (states (machine_crash_shutdown env cpu r0))"
    by (rule in_states_machine_crash_shutdown)
  define s where "s = ?f (cur ?rb)"
  define W where "W = ?W"
  have s1: "waiting_to_crash s = W" and s2: "trace s = trace (cur ?rb) @ [(cpu, Printk (Failed_to_shoot_down_CPUs W))]"
    by (simp_all add: s_def W_def)
  from st have s3: "s \<in> set (states (machine_crash_shutdown env cpu r0))"
    by (simp only: s_def)
  from s2 have "\<exists>tr. trace s = tr @ [(cpu, Printk (Failed_to_shoot_down_CPUs W))]" ..
  with s1 have "waiting_to_crash s = W
      \<and> (\<exists>tr. trace s = tr @ [(cpu, Printk (Failed_to_shoot_down_CPUs W))])" ..
  with s3 have hist: "\<exists>s\<in>set (states (machine_crash_shutdown env cpu r0)).
          waiting_to_crash s = W
          \<and> (\<exists>tr. trace s = tr @ [(cpu, Printk (Failed_to_shoot_down_CPUs W))])" ..
  note wb' = wb [folded W_def] and sub' = sub [folded W_def] and ev' = ev [folded W_def]
  show ?thesis
  proof (rule exI [of _ W], intro conjI)
    show "c \<in> W" by (rule wb')
    show "W \<subseteq> waiting_to_crash (cur ?r1)" by (rule sub')
    show "events_of cpu (trace (cur (machine_crash_shutdown env cpu r0))) =
        events_of cpu (trace (cur r0)) @
        [Disable_lapic_nmi_watchdog, Local_irq_disable, Set_gate_lower_NMI Trap_nop,
         Set_ist_MC IST_NONE, Set_nmi_callback Do_nmi_crash, Smp_send_nmi_allbutself] @
        replicate 1000 (Mdelay 1) @
        [Console_force_unlock, Printk (Failed_to_shoot_down_CPUs W), Iommu_crash_shutdown] @
        (if cpu \<in> cpu_online_map (cur r0) then
           [Stop_this_cpu, Pcidevs_trylock (pcidevs_lock_free env)] @
           (if pcidevs_lock_free env then [Pci_disable_msi_all, Pcidevs_unlock] else []) @
           [Disable_IO_APIC, Hpet_disable, Iommu_quiesce]
         else []) @
        [Kexec_crash_save_info]" by (rule ev')
    show "\<exists>s\<in>set (states (machine_crash_shutdown env cpu r0)).
          waiting_to_crash s = W
          \<and> (\<exists>tr. trace s = tr @ [(cpu, Printk (Failed_to_shoot_down_CPUs W))])" by (rule hist)
    show "info_xen_phys_start (cur (machine_crash_shutdown env cpu r0)) = Some (xen_phys_start (cur r0))"
      by (rule machine_crash_shutdown_info)
    show "info_dom0_pfn_to_mfn_frame_list_list (cur (machine_crash_shutdown env cpu r0)) =
        Some (dom0_frame_list_list (cur r0))"
      by (rule machine_crash_shutdown_info)
  qed
qed

theorem stragglers_are_reported_witness:
  "nmi_callback (cur boot_run) \<noteq> Do_nmi_crash \<and> 2 \<in> cpu_online_map (cur boot_run) \<and> (2::nat) \<noteq> 0
   \<and> 2 \<notin> (\<Union>t. nmi_cpu ` set (nmi_arrivals env_cpu2_hangs t))
   \<and> events_of 0 (trace (cur (machine_crash_shutdown env_cpu2_hangs 0 boot_run))) =
        [Disable_lapic_nmi_watchdog, Local_irq_disable, Set_gate_lower_NMI Trap_nop,
         Set_ist_MC IST_NONE, Set_nmi_callback Do_nmi_crash, Smp_send_nmi_allbutself] @
        replicate 1000 (Mdelay 1) @
        [Console_force_unlock, Printk (Failed_to_shoot_down_CPUs {2}), Iommu_crash_shutdown,
         Stop_this_cpu, Pcidevs_trylock False, Disable_IO_APIC, Hpet_disable, Iommu_quiesce,
         Kexec_crash_save_info]
   \<and> info_xen_phys_start (cur (machine_crash_shutdown env_cpu2_hangs 0 boot_run)) = Some 0x7F000000
   \<and> info_dom0_pfn_to_mfn_frame_list_list (cur (machine_crash_shutdown env_cpu2_hangs 0 boot_run)) =
        Some 0x12345"
proof -
  let ?R = "machine_crash_shutdown env_cpu2_hangs 0 boot_run"
  have h1: "nmi_callback (cur boot_run) \<noteq> Do_nmi_crash"
    and h2: "2 \<in> cpu_online_map (cur boot_run)" and h3: "(2::nat) \<noteq> 0"
    and b: "trace (cur boot_run) = []" "0 \<in> cpu_online_map (cur boot_run)"
      "xen_phys_start (cur boot_run) = 0x7F000000" "dom0_frame_list_list (cur boot_run) = 0x12345"
    by (simp_all add: boot_run_def boot_state_def)
  have h4: "\<forall>t. \<forall>d\<in>set (nmi_arrivals env_cpu2_hangs t). nmi_cpu d \<noteq> 2"
    by (simp add: env_cpu2_hangs_def nmi_on_def)
  then have h4': "2 \<notin> (\<Union>t. nmi_cpu ` set (nmi_arrivals env_cpu2_hangs t))"
    by auto
  have l: "\<not> pcidevs_lock_free env_cpu2_hangs"
    by (simp add: env_cpu2_hangs_def)
  from stragglers_are_reported [OF h1 h2 h3 h4]
  obtain W where W: "2 \<in> W" "W \<subseteq> waiting_to_crash (cur (shootdown_prepare env_cpu2_hangs 0 boot_run))"
    and ev: "events_of 0 (trace (cur ?R)) =
        events_of 0 (trace (cur boot_run)) @
        [Disable_lapic_nmi_watchdog, Local_irq_disable, Set_gate_lower_NMI Trap_nop,
         Set_ist_MC IST_NONE, Set_nmi_callback Do_nmi_crash, Smp_send_nmi_allbutself] @
        replicate 1000 (Mdelay 1) @
        [Console_force_unlock, Printk (Failed_to_shoot_down_CPUs W), Iommu_crash_shutdown] @
        (if 0 \<in> cpu_online_map (cur boot_run) then
           [Stop_this_cpu, Pcidevs_trylock (pcidevs_lock_free env_cpu2_hangs)] @
           (if pcidevs_lock_free env_cpu2_hangs then [Pci_disable_msi_all, Pcidevs_unlock] else []) @
           [Disable_IO_APIC, Hpet_disable, Iommu_quiesce]
         else []) @
        [Kexec_crash_save_info]"
    and info: "info_xen_phys_start (cur ?R) = Some (xen_phys_start (cur boot_run))"
      "info_dom0_pfn_to_mfn_frame_list_list (cur ?R) = Some (dom0_frame_list_list (cur boot_run))"
    by blast
  from W have "W = {2}" unfolding prepare_cpu2_hangs by blast
  with ev b l have ev': "events_of 0 (trace (cur ?R)) =
        [Disable_lapic_nmi_watchdog, Local_irq_disable, Set_gate_lower_NMI Trap_nop,
         Set_ist_MC IST_NONE, Set_nmi_callback Do_nmi_crash, Smp_send_nmi_allbutself] @
        replicate 1000 (Mdelay 1) @
        [Console_force_unlock, Printk (Failed_to_shoot_down_CPUs {2}), Iommu_crash_shutdown,
         Stop_this_cpu, Pcidevs_trylock False, Disable_IO_APIC, Hpet_disable, Iommu_quiesce,
         Kexec_crash_save_info]"
    by simp
  from info b have info': "info_xen_phys_start (cur ?R) = Some 0x7F000000"
    "info_dom0_pfn_to_mfn_frame_list_list (cur ?R) = Some 0x12345"
    by simp_all
  show ?thesis by (intro conjI h1 h2 h3 h4' ev' info')
qed

end
